theory Spec2Isabelle
  imports Main "HOL-Library.Sublist"
begin

section \<open>Strings, exceptions and the observable trace\<close>

text \<open>
  The scrapers are straight-line drivers of a headless browser. Every browser call either
  returns a value or raises an exception; the scraper catches the exception and works with
  \<open>str(e)\<close>. A call's outcome is therefore a value of \<open>string + 'a\<close>: \<open>Inl msg\<close> is a
  raised exception whose \<open>str(e)\<close> is \<open>msg\<close>, \<open>Inr v\<close> is the returned value.

  A Python string is modelled by the list of its characters with code points below 256.
  Printing to the console, writing a log record and \<open>asyncio.sleep\<close> are taken not to
  raise.
\<close>

type_synonym 'a raising = "string + 'a"

text \<open>\<open>str.lower()\<close> on code points below 256: A-Z and the Latin-1 capitals move up by 32.\<close>

definition lower_chr :: "char \<Rightarrow> char" where
  "lower_chr c =
     (let n = (of_char c :: nat)
      in if (65 \<le> n \<and> n \<le> 90) \<or> (192 \<le> n \<and> n \<le> 222 \<and> n \<noteq> 215)
         then char_of (n + 32) else c)"

definition lower :: "string \<Rightarrow> string" where
  "lower s = map lower_chr s"

text \<open>\<open>sub in s\<close> on strings: \<open>sub\<close> occurs in \<open>s\<close> as a contiguous block.\<close>

fun str_in :: "string \<Rightarrow> string \<Rightarrow> bool" where
  "str_in sub [] = (sub = [])"
| "str_in sub (c # cs) = (prefix sub (c # cs) \<or> str_in sub cs)"

text \<open>\<open>str.isspace()\<close> on one character with code point below 256, and \<open>str.strip()\<close>.\<close>

definition isspace :: "char \<Rightarrow> bool" where
  "isspace c =
     (let n = (of_char c :: nat)
      in (9 \<le> n \<and> n \<le> 13) \<or> (28 \<le> n \<and> n \<le> 32) \<or> n = 133 \<or> n = 160)"

definition strip :: "string \<Rightarrow> string" where
  "strip s = rev (dropWhile isspace (rev (dropWhile isspace s)))"

text \<open>\<open>str(i)\<close> for a natural number.\<close>

fun str_nat :: "nat \<Rightarrow> string" where
  "str_nat n = (if n < 10 then [char_of (48 + n)] else str_nat (n div 10) @ [char_of (48 + n mod 10)])"

text \<open>\<open>str(Path(d) / name)\<close> for a relative \<open>name\<close>, with the POSIX separator.\<close>

definition path_join :: "string \<Rightarrow> string \<Rightarrow> string" where
  "path_join d name = d @ ''/'' @ name"

text \<open>
  What a run does is observed through a trace: the pipeline steps entered (each method's
  first log line; \<open>Summary\<close> is the summary a runner script prints) and the calls made to
  the browser and the file system, in the order they happen. The logger's error, warning
  and debug records are kept apart.
\<close>

datatype step = Start | Navigate | Popup | SaveHtml | SaveShot | Extract | Report | Cleanup | Summary

datatype call =
    PwStart | Launch | NewContext | NewPage
  | Goto string | WaitForLoadState string | Sleep nat
  | LocatorCount string | LocatorClick string | RoleCount | RoleClick
  | Title | Content | WriteFile string string | Screenshot string
  | BannerCount | GetAttribute nat | InnerText nat
  | QuerySelectorAll string | HeadingText nat | HeadingTag nat
  | ContextClose | BrowserStop

datatype event = Enter step | Call call

datatype level = DEBUG | WARNING | ERROR

fun steps_of :: "event list \<Rightarrow> step list" where
  "steps_of [] = []"
| "steps_of (Enter st # es) = st # steps_of es"
| "steps_of (Call c # es) = steps_of es"

section \<open>The browser\<close>

text \<open>
  The outcome of every call the scrapers make. No call is made twice with the same
  arguments in one run, so one outcome per call describes any run.
\<close>

record world =
  now :: string
  pw_start :: "unit raising"
  launch :: "unit raising"
  new_context :: "unit raising"
  new_page :: "unit raising"
  goto :: "unit raising"
  wait_for_load_state :: "string \<Rightarrow> unit raising"
  locator_count :: "string \<Rightarrow> nat raising"
  locator_click :: "string \<Rightarrow> unit raising"
  role_count :: "nat raising"
  role_click :: "unit raising"
  page_title :: "string raising"
  content :: "string raising"
  write_file :: "unit raising"
  screenshot :: "unit raising"
  banner_count :: "nat raising"
  get_attribute :: "nat \<Rightarrow> string option raising"
  inner_text :: "nat \<Rightarrow> string raising"
  query_selector_all :: "nat raising"
  heading_text :: "nat \<Rightarrow> string raising"
  heading_tag :: "nat \<Rightarrow> string raising"
  context_close :: "unit raising"
  browser_stop :: "unit raising"

section \<open>The result record and the scraper object\<close>

text \<open>
  \<open>scrape_data\<close> holds the keys the three classes share; \<open>zara_data\<close> and \<open>page_data\<close>
  add the keys of ZaraScraper and of DemoScraper/TestScraper. The key \<open>banners\<close>
  (\<open>extracted_data\<close>) is absent until \<open>run_scrape\<close> stores it.
\<close>

record banner =
  banner_text :: string
  banner_href :: string
  banner_index :: nat

record heading =
  heading_type :: string
  heading_txt :: string
  heading_index :: nat

record scrape_data =
  timestamp :: string
  url :: string
  data_locale :: string
  success :: bool
  html_file :: "string option"
  screenshot_file :: "string option"
  errors :: "string list"

record zara_data = scrape_data +
  banners_found :: nat
  banners :: "banner list option"

record page_data = scrape_data +
  title :: "string option"
  headings_found :: nat
  extracted_data :: "heading list option"

text \<open>
  The scraper object. \<open>browser\<close>, \<open>self_context\<close> and \<open>page\<close> say whether the handle is set
  (not \<open>None\<close>); \<open>trace\<close> and \<open>logged\<close> are the observations.
\<close>

record 'd scraper =
  headless :: bool
  self_locale :: string
  browser :: bool
  self_context :: bool
  page :: bool
  self_timestamp :: string
  scrape_data :: 'd
  trace :: "event list"
  logged :: "(level \<times> string) list"

definition emit :: "event \<Rightarrow> 'd scraper \<Rightarrow> 'd scraper" where
  "emit e s = s\<lparr>trace := trace s @ [e]\<rparr>"

definition log_record :: "level \<Rightarrow> string \<Rightarrow> 'd scraper \<Rightarrow> 'd scraper" where
  "log_record l msg s = s\<lparr>logged := logged s @ [(l, msg)]\<rparr>"

text \<open>\<open>logger.error(error_msg); self.scrape_data["errors"].append(error_msg)\<close>\<close>

definition record_error :: "string \<Rightarrow> ('a scrape_data_scheme) scraper \<Rightarrow> ('a scrape_data_scheme) scraper" where
  "record_error msg s =
     (log_record ERROR msg s)\<lparr>scrape_data := (scrape_data s)\<lparr>errors := errors (scrape_data s) @ [msg]\<rparr>\<rparr>"

text \<open>
  A call on \<open>self.page\<close>: with no page the attribute access raises AttributeError and the
  browser is not reached; otherwise the call is made and the browser decides.
\<close>

definition none_attr :: "string \<Rightarrow> string" where
  "none_attr name =
     CHR 0x27 # ''NoneType'' @ CHR 0x27 # '' object has no attribute '' @ CHR 0x27 # name @ [CHR 0x27]"

definition page_call :: "'d scraper \<Rightarrow> string \<Rightarrow> call \<Rightarrow> 'a raising \<Rightarrow> 'a raising \<times> 'd scraper" where
  "page_call s name c r = (if page s then (r, emit (Call c) s) else (Inl (none_attr name), s))"


text \<open>
  The two callbacks registered with \<open>page.on\<close>. The browser's event emitter calls them,
  not the pipeline; the runs below are the pipeline's own sequence of calls.
\<close>

definition handle_page_error :: "string \<Rightarrow> ('a scrape_data_scheme) scraper \<Rightarrow> ('a scrape_data_scheme) scraper" where
  "handle_page_error err s = record_error (''Page error: '' @ err) s"


text \<open>
  \<open>start_browser\<close> is the same text in the three classes. An exception is recorded and
  raised again (\<open>Inl\<close>); each handle is set once its call has returned.
\<close>

definition start_browser_except :: "string \<Rightarrow> ('a scrape_data_scheme) scraper \<Rightarrow> unit raising \<times> ('a scrape_data_scheme) scraper" where
  "start_browser_except e s = (Inl e, record_error (''Failed to start browser: '' @ e) s)"

definition start_browser :: "world \<Rightarrow> ('a scrape_data_scheme) scraper \<Rightarrow> unit raising \<times> ('a scrape_data_scheme) scraper" where
  "start_browser w s =
     (let s1 = emit (Call PwStart) (emit (Enter Start) s)
      in case pw_start w of
           Inl e \<Rightarrow> start_browser_except e s1
         | Inr _ \<Rightarrow>
             (let s2 = emit (Call Launch) (s1\<lparr>browser := True\<rparr>)
              in case launch w of
                   Inl e \<Rightarrow> start_browser_except e s2
                 | Inr _ \<Rightarrow>
                     (let s3 = emit (Call NewContext) s2
                      in case new_context w of
                           Inl e \<Rightarrow> start_browser_except e s3
                         | Inr _ \<Rightarrow>
                             (let s4 = emit (Call NewPage) (s3\<lparr>self_context := True\<rparr>)
                              in case new_page w of
                                   Inl e \<Rightarrow> start_browser_except e s4
                                 | Inr _ \<Rightarrow> (Inr (), s4\<lparr>page := True\<rparr>)))))"

section \<open>ZaraScraper\<close>

definition ZARA_HOME_URL :: string where
  "ZARA_HOME_URL = ''https://www.zara.com/''"

definition LOCALE :: string where
  "LOCALE = ''en-US''"

definition HEADLESS :: bool where
  "HEADLESS = True"

definition OUTPUT_DIR :: string where
  "OUTPUT_DIR = ''data/scrapes''"

definition SCREENSHOTS_DIR :: string where
  "SCREENSHOTS_DIR = path_join OUTPUT_DIR ''screenshots''"

definition HTML_DIR :: string where
  "HTML_DIR = path_join OUTPUT_DIR ''html''"

definition zara_init :: "world \<Rightarrow> bool \<Rightarrow> string \<Rightarrow> zara_data scraper" where
  "zara_init w hl loc =
     \<lparr>headless = hl, self_locale = loc, browser = False, self_context = False, page = False,
      self_timestamp = now w,
      scrape_data =
        \<lparr>timestamp = now w, url = ZARA_HOME_URL, data_locale = loc, success = False,
         html_file = None, screenshot_file = None, errors = [],
         banners_found = 0, banners = None\<rparr>,
      trace = [], logged = []\<rparr>"

text \<open>The selector list is local to \<open>handle_cookie_popup\<close>.\<close>

definition cookie_selectors :: "string list" where
  "cookie_selectors =
     [''button[data-testid='' @ CHR 0x27 # ''cookie-accept'' @ CHR 0x27 # '']'',
      ''button:has-text('' @ CHR 0x27 # ''Accept'' @ CHR 0x27 # '')'',
      ''button:has-text('' @ CHR 0x27 # ''Accept All'' @ CHR 0x27 # '')'',
      ''button:has-text('' @ CHR 0x27 # ''I Accept'' @ CHR 0x27 # '')'',
      ''button:has-text('' @ CHR 0x27 # ''OK'' @ CHR 0x27 # '')'',
      ''[data-testid='' @ CHR 0x27 # ''cookie-banner'' @ CHR 0x27 # ''] button'',
      ''.cookie-accept'',
      ''#cookie-accept'',
      ''button[aria-label*='' @ CHR 0x27 # ''Accept'' @ CHR 0x27 # '']'',
      ''button[aria-label*='' @ CHR 0x27 # ''Cookie'' @ CHR 0x27 # '']'']"

text \<open>
  The \<open>for selector in cookie_selectors\<close> loop. The result is \<open>True\<close> when the loop left the
  method by \<open>return True\<close>, \<open>False\<close> when the list is exhausted. An exception of the
  locator, the count or the click is logged at debug level and the loop continues.
\<close>

definition selector_failed :: "string \<Rightarrow> string \<Rightarrow> 'd scraper \<Rightarrow> 'd scraper" where
  "selector_failed selector e s = log_record DEBUG (''Selector '' @ selector @ '' failed: '' @ e) s"

fun cookie_loop :: "world \<Rightarrow> string list \<Rightarrow> 'd scraper \<Rightarrow> bool \<times> 'd scraper" where
  "cookie_loop w [] s = (False, s)"
| "cookie_loop w (selector # rest) s =
     (case page_call s ''locator'' (LocatorCount selector) (locator_count w selector) of
        (Inl e, s1) \<Rightarrow> cookie_loop w rest (selector_failed selector e s1)
      | (Inr n, s1) \<Rightarrow>
          if n > 0 then
            (let s2 = emit (Call (LocatorClick selector)) s1
             in case locator_click w selector of
                  Inl e \<Rightarrow> cookie_loop w rest (selector_failed selector e s2)
                | Inr _ \<Rightarrow> (True, s2))
          else cookie_loop w rest s1)"

text \<open>
  \<open>handle_cookie_popup\<close>: one sleep of two seconds, the loop, then the role-based attempt.
  Printing, logging and sleeping do not raise, so the outer handler is never entered.
\<close>

definition handle_cookie_popup :: "world \<Rightarrow> 'd scraper \<Rightarrow> bool \<times> 'd scraper" where
  "handle_cookie_popup w s =
     (let s0 = emit (Call (Sleep 2)) (emit (Enter Popup) s)
      in case cookie_loop w cookie_selectors s0 of
           (True, s1) \<Rightarrow> (True, s1)
         | (False, s1) \<Rightarrow>
             (case page_call s1 ''get_by_role'' RoleCount (role_count w) of
                (Inl e, s2) \<Rightarrow> (False, log_record DEBUG (''Role-based approach failed: '' @ e) s2)
              | (Inr n, s2) \<Rightarrow>
                  if n > 0 then
                    (let s3 = emit (Call RoleClick) s2
                     in case role_click w of
                          Inl e \<Rightarrow> (False, log_record DEBUG (''Role-based approach failed: '' @ e) s3)
                        | Inr _ \<Rightarrow> (True, s3))
                  else (False, s2)))"

definition navigate_except :: "string \<Rightarrow> ('a scrape_data_scheme) scraper \<Rightarrow> bool \<times> ('a scrape_data_scheme) scraper" where
  "navigate_except e s = (False, record_error (''Failed to navigate to homepage: '' @ e) s)"

definition navigate_to_homepage :: "world \<Rightarrow> ('a scrape_data_scheme) scraper \<Rightarrow> bool \<times> ('a scrape_data_scheme) scraper" where
  "navigate_to_homepage w s =
     (case page_call (emit (Enter Navigate) s) ''goto'' (Goto ZARA_HOME_URL) (goto w) of
        (Inl e, s1) \<Rightarrow> navigate_except e s1
      | (Inr _, s1) \<Rightarrow>
          (case page_call s1 ''wait_for_load_state'' (WaitForLoadState ''domcontentloaded'')
                  (wait_for_load_state w ''domcontentloaded'') of
             (Inl e, s2) \<Rightarrow> navigate_except e s2
           | (Inr _, s2) \<Rightarrow>
               (case handle_cookie_popup w s2 of
                  (handled, s3) \<Rightarrow>
                    (case page_call s3 ''title'' Title (page_title w) of
                       (Inl e, s4) \<Rightarrow> navigate_except e s4
                     | (Inr t, s4) \<Rightarrow>
                         if str_in ''zara'' (lower t) then (True, s4)
                         else (False, log_record WARNING (''Unexpected page title: '' @ t) s4)))))"

definition save_html_except :: "string \<Rightarrow> ('a scrape_data_scheme) scraper \<Rightarrow> string option \<times> ('a scrape_data_scheme) scraper" where
  "save_html_except e s = (None, record_error (''Failed to save HTML: '' @ e) s)"

definition save_html :: "world \<Rightarrow> ('a scrape_data_scheme) scraper \<Rightarrow> string option \<times> ('a scrape_data_scheme) scraper" where
  "save_html w s =
     (case page_call (emit (Enter SaveHtml) s) ''content'' Content (content w) of
        (Inl e, s1) \<Rightarrow> save_html_except e s1
      | (Inr html_content, s1) \<Rightarrow>
          (let html_filename = ''zara_homepage_'' @ self_timestamp s @ ''.html'';
               html_filepath = path_join HTML_DIR html_filename;
               s2 = emit (Call (WriteFile html_filepath html_content)) s1
           in case write_file w of
                Inl e \<Rightarrow> save_html_except e s2
              | Inr _ \<Rightarrow>
                  (Some html_filepath,
                   s2\<lparr>scrape_data := (scrape_data s2)\<lparr>html_file := Some html_filepath\<rparr>\<rparr>)))"

definition save_screenshot_except :: "string \<Rightarrow> ('a scrape_data_scheme) scraper \<Rightarrow> string option \<times> ('a scrape_data_scheme) scraper" where
  "save_screenshot_except e s = (None, record_error (''Failed to save screenshot: '' @ e) s)"

definition save_screenshot :: "world \<Rightarrow> ('a scrape_data_scheme) scraper \<Rightarrow> string option \<times> ('a scrape_data_scheme) scraper" where
  "save_screenshot w s =
     (let s0 = emit (Enter SaveShot) s;
          screenshot_filename = ''zara_homepage_'' @ self_timestamp s @ ''.png'';
          screenshot_filepath = path_join SCREENSHOTS_DIR screenshot_filename
      in case page_call s0 ''screenshot'' (Screenshot screenshot_filepath) (screenshot w) of
           (Inl e, s1) \<Rightarrow> save_screenshot_except e s1
         | (Inr _, s1) \<Rightarrow>
             (Some screenshot_filepath,
              s1\<lparr>scrape_data := (scrape_data s1)\<lparr>screenshot_file := Some screenshot_filepath\<rparr>\<rparr>))"


text \<open>
  The loop \<open>for i in range(min(count, 20))\<close> of \<open>extract_hero_banners\<close>, over the list of
  indices still to visit, with the list \<open>banners\<close> built so far. An exception of either
  read is logged at debug level and the element is skipped.
\<close>

definition banner_failed :: "nat \<Rightarrow> string \<Rightarrow> 'd scraper \<Rightarrow> 'd scraper" where
  "banner_failed i e s = log_record DEBUG (''Error extracting banner '' @ str_nat i @ '': '' @ e) s"

fun banner_loop :: "world \<Rightarrow> nat list \<Rightarrow> banner list \<Rightarrow> 'd scraper \<Rightarrow> banner list \<times> 'd scraper" where
  "banner_loop w [] bs s = (bs, s)"
| "banner_loop w (i # rest) bs s =
     (let s1 = emit (Call (GetAttribute i)) s
      in case get_attribute w i of
           Inl e \<Rightarrow> banner_loop w rest bs (banner_failed i e s1)
         | Inr href \<Rightarrow>
             (let s2 = emit (Call (InnerText i)) s1
              in case inner_text w i of
                   Inl e \<Rightarrow> banner_loop w rest bs (banner_failed i e s2)
                 | Inr txt \<Rightarrow>
                     (case href of
                        None \<Rightarrow> banner_loop w rest bs s2
                      | Some h \<Rightarrow>
                          if h \<noteq> [] \<and> strip txt \<noteq> [] then
                            banner_loop w rest
                              (bs @ [\<lparr>banner_text = strip txt, banner_href = h, banner_index = i\<rparr>]) s2
                          else banner_loop w rest bs s2)))"

definition extract_except :: "string \<Rightarrow> zara_data scraper \<Rightarrow> banner list \<times> zara_data scraper" where
  "extract_except e s = ([], record_error (''Failed to extract banners: '' @ e) s)"

definition extract_hero_banners :: "world \<Rightarrow> zara_data scraper \<Rightarrow> banner list \<times> zara_data scraper" where
  "extract_hero_banners w s =
     (case page_call (emit (Enter Extract) s) ''wait_for_load_state'' (WaitForLoadState ''networkidle'')
             (wait_for_load_state w ''networkidle'') of
        (Inl e, s1) \<Rightarrow> extract_except e s1
      | (Inr _, s1) \<Rightarrow>
          (let s2 = emit (Call BannerCount) s1
           in case banner_count w of
                Inl e \<Rightarrow> extract_except e s2
              | Inr count \<Rightarrow>
                  (case banner_loop w [0 ..< min count 20] [] s2 of
                     (bs, s3) \<Rightarrow>
                       (bs, s3\<lparr>scrape_data := (scrape_data s3)\<lparr>banners_found := length bs\<rparr>\<rparr>))))"

text \<open>
  \<open>_display_results\<close> prints the results table, the first banners and the errors; it
  changes nothing and catches its own exceptions.
\<close>

definition display_results :: "'d scraper \<Rightarrow> 'd scraper" where
  "display_results s = emit (Enter Report) s"

text \<open>
  \<open>run_scrape\<close> returns \<open>self.scrape_data\<close>, here the field of the returned scraper. Every
  method it calls catches its own exceptions, so its outer handler is never entered.
\<close>

definition run_scrape :: "world \<Rightarrow> zara_data scraper \<Rightarrow> zara_data scraper" where
  "run_scrape w s =
     (case navigate_to_homepage w s of
        (False, s1) \<Rightarrow> s1\<lparr>scrape_data := (scrape_data s1)\<lparr>success := False\<rparr>\<rparr>
      | (True, s1) \<Rightarrow>
          (case save_html w s1 of
             (html_file', s2) \<Rightarrow>
               (case save_screenshot w s2 of
                  (screenshot_file', s3) \<Rightarrow>
                    (case extract_hero_banners w s3 of
                       (bs, s4) \<Rightarrow>
                         display_results
                           (s4\<lparr>scrape_data := (scrape_data s4)\<lparr>success := True, banners := Some bs\<rparr>\<rparr>)))))"

text \<open>
  What \<open>main\<close> returns: the scraper's result record, or the two-key dictionary
  \<open>{"success": False, "error": str(e)}\<close> of its own handler.
\<close>

datatype 'd results = Scraped 'd | MainError string

definition get_success :: "('a scrape_data_scheme) results \<Rightarrow> bool" where
  "get_success r = (case r of Scraped d \<Rightarrow> success d | MainError e \<Rightarrow> False)"

text \<open>
  \<open>main\<close> of zara_scraper.py: \<open>async with ZaraScraper(...) as scraper\<close> constructs the
  scraper and starts the browser; \<open>__aexit__\<close> does nothing.
\<close>

definition main :: "world \<Rightarrow> zara_data results \<times> zara_data scraper" where
  "main w =
     (case start_browser w (zara_init w HEADLESS LOCALE) of
        (Inl e, s) \<Rightarrow> (MainError e, s)
      | (Inr _, s) \<Rightarrow> (let s' = run_scrape w s in (Scraped (scrape_data s'), s')))"

text \<open>The \<open>__main__\<close> block of zara_scraper.py: \<open>exit(0 if results.get("success") else 1)\<close>.\<close>

definition zara_scraper_main_block :: "world \<Rightarrow> int \<times> zara_data results \<times> zara_data scraper" where
  "zara_scraper_main_block w =
     (case main w of (r, s) \<Rightarrow> ((if get_success r then 0 else 1), r, s))"

text \<open>
  run_scraper.py: \<open>run_test\<close> calls \<open>main\<close>, prints its summary and returns
  \<open>results.get('success', False)\<close>; the block exits with \<open>0 if success else 1\<close>.
\<close>

definition run_test :: "world \<Rightarrow> bool \<times> zara_data results \<times> zara_data scraper" where
  "run_test w = (case main w of (r, s) \<Rightarrow> (get_success r, r, emit (Enter Summary) s))"

definition run_scraper_main_block :: "world \<Rightarrow> int \<times> zara_data results \<times> zara_data scraper" where
  "run_scraper_main_block w =
     (case run_test w of (ok, r, s) \<Rightarrow> ((if ok then 0 else 1), r, s))"


section \<open>What DemoScraper and TestScraper share word for word\<close>

text \<open>
  \<open>cleanup\<close>: close the context and stop the browser, each only when its handle is set;
  an exception is logged and nothing else happens.
\<close>

definition cleanup :: "world \<Rightarrow> 'd scraper \<Rightarrow> 'd scraper" where
  "cleanup w s =
     (let s0 = emit (Enter Cleanup) s
      in case (if self_context s0 then (context_close w, emit (Call ContextClose) s0) else (Inr (), s0)) of
           (Inl e, s1) \<Rightarrow> log_record ERROR (''Error during cleanup: '' @ e) s1
         | (Inr _, s1) \<Rightarrow>
             (case (if browser s1 then (browser_stop w, emit (Call BrowserStop) s1) else (Inr (), s1)) of
                (Inl e, s2) \<Rightarrow> log_record ERROR (''Error during cleanup: '' @ e) s2
              | (Inr _, s2) \<Rightarrow> s2))"

definition heading_selector :: string where
  "heading_selector = ''h1, h2, h3, h4, h5, h6''"

text \<open>The loop \<open>for i, heading in enumerate(headings)\<close> of \<open>extract_data\<close>.\<close>

definition heading_failed :: "nat \<Rightarrow> string \<Rightarrow> 'd scraper \<Rightarrow> 'd scraper" where
  "heading_failed i e s = log_record DEBUG (''Error extracting heading '' @ str_nat i @ '': '' @ e) s"

fun heading_loop :: "world \<Rightarrow> nat list \<Rightarrow> heading list \<Rightarrow> 'd scraper \<Rightarrow> heading list \<times> 'd scraper" where
  "heading_loop w [] hs s = (hs, s)"
| "heading_loop w (i # rest) hs s =
     (let s1 = emit (Call (HeadingText i)) s
      in case heading_text w i of
           Inl e \<Rightarrow> heading_loop w rest hs (heading_failed i e s1)
         | Inr txt \<Rightarrow>
             (let s2 = emit (Call (HeadingTag i)) s1
              in case heading_tag w i of
                   Inl e \<Rightarrow> heading_loop w rest hs (heading_failed i e s2)
                 | Inr tag_name \<Rightarrow>
                     if strip txt \<noteq> [] then
                       heading_loop w rest
                         (hs @ [\<lparr>heading_type = tag_name, heading_txt = strip txt, heading_index = i\<rparr>]) s2
                     else heading_loop w rest hs s2))"

definition extract_data_except :: "string \<Rightarrow> page_data scraper \<Rightarrow> heading list \<times> page_data scraper" where
  "extract_data_except e s = ([], record_error (''Failed to extract data: '' @ e) s)"

section \<open>DemoScraper\<close>

definition DEMO_URL :: string where
  "DEMO_URL = ''https://httpbin.org/html''"

definition demo_OUTPUT_DIR :: string where
  "demo_OUTPUT_DIR = ''data/demo_scrapes''"

definition demo_SCREENSHOTS_DIR :: string where
  "demo_SCREENSHOTS_DIR = path_join demo_OUTPUT_DIR ''screenshots''"

definition demo_HTML_DIR :: string where
  "demo_HTML_DIR = path_join demo_OUTPUT_DIR ''html''"

definition demo_init :: "world \<Rightarrow> bool \<Rightarrow> string \<Rightarrow> page_data scraper" where
  "demo_init w hl loc =
     \<lparr>headless = hl, self_locale = loc, browser = False, self_context = False, page = False,
      self_timestamp = now w,
      scrape_data =
        \<lparr>timestamp = now w, url = DEMO_URL, data_locale = loc, success = False,
         html_file = None, screenshot_file = None, errors = [],
         title = None, headings_found = 0, extracted_data = None\<rparr>,
      trace = [], logged = []\<rparr>"

definition demo_navigate_except :: "string \<Rightarrow> page_data scraper \<Rightarrow> bool \<times> page_data scraper" where
  "demo_navigate_except e s = (False, record_error (''Failed to navigate to page: '' @ e) s)"

definition demo_navigate_to_page :: "world \<Rightarrow> page_data scraper \<Rightarrow> bool \<times> page_data scraper" where
  "demo_navigate_to_page w s =
     (case page_call (emit (Enter Navigate) s) ''goto'' (Goto DEMO_URL) (goto w) of
        (Inl e, s1) \<Rightarrow> demo_navigate_except e s1
      | (Inr _, s1) \<Rightarrow>
          (case page_call s1 ''wait_for_load_state'' (WaitForLoadState ''domcontentloaded'')
                  (wait_for_load_state w ''domcontentloaded'') of
             (Inl e, s2) \<Rightarrow> demo_navigate_except e s2
           | (Inr _, s2) \<Rightarrow>
               (case page_call s2 ''title'' Title (page_title w) of
                  (Inl e, s3) \<Rightarrow> demo_navigate_except e s3
                | (Inr t, s3) \<Rightarrow>
                    (True, s3\<lparr>scrape_data := (scrape_data s3)\<lparr>title := Some t\<rparr>\<rparr>))))"

definition demo_save_html :: "world \<Rightarrow> page_data scraper \<Rightarrow> string option \<times> page_data scraper" where
  "demo_save_html w s =
     (case page_call (emit (Enter SaveHtml) s) ''content'' Content (content w) of
        (Inl e, s1) \<Rightarrow> save_html_except e s1
      | (Inr html_content, s1) \<Rightarrow>
          (let html_filename = ''demo_page_'' @ self_timestamp s @ ''.html'';
               html_filepath = path_join demo_HTML_DIR html_filename;
               s2 = emit (Call (WriteFile html_filepath html_content)) s1
           in case write_file w of
                Inl e \<Rightarrow> save_html_except e s2
              | Inr _ \<Rightarrow>
                  (Some html_filepath,
                   s2\<lparr>scrape_data := (scrape_data s2)\<lparr>html_file := Some html_filepath\<rparr>\<rparr>)))"

definition demo_save_screenshot :: "world \<Rightarrow> page_data scraper \<Rightarrow> string option \<times> page_data scraper" where
  "demo_save_screenshot w s =
     (let s0 = emit (Enter SaveShot) s;
          screenshot_filename = ''demo_page_'' @ self_timestamp s @ ''.png'';
          screenshot_filepath = path_join demo_SCREENSHOTS_DIR screenshot_filename
      in case page_call s0 ''screenshot'' (Screenshot screenshot_filepath) (screenshot w) of
           (Inl e, s1) \<Rightarrow> save_screenshot_except e s1
         | (Inr _, s1) \<Rightarrow>
             (Some screenshot_filepath,
              s1\<lparr>scrape_data := (scrape_data s1)\<lparr>screenshot_file := Some screenshot_filepath\<rparr>\<rparr>))"

definition demo_extract_data :: "world \<Rightarrow> page_data scraper \<Rightarrow> heading list \<times> page_data scraper" where
  "demo_extract_data w s =
     (case page_call (emit (Enter Extract) s) ''wait_for_load_state'' (WaitForLoadState ''networkidle'')
             (wait_for_load_state w ''networkidle'') of
        (Inl e, s1) \<Rightarrow> extract_data_except e s1
      | (Inr _, s1) \<Rightarrow>
          (let s2 = emit (Call (QuerySelectorAll heading_selector)) s1
           in case query_selector_all w of
                Inl e \<Rightarrow> extract_data_except e s2
              | Inr n \<Rightarrow>
                  (case heading_loop w [0 ..< n] [] s2 of
                     (hs, s3) \<Rightarrow>
                       (hs, s3\<lparr>scrape_data := (scrape_data s3)\<lparr>headings_found := length hs\<rparr>\<rparr>))))"

definition demo_run_scrape :: "world \<Rightarrow> page_data scraper \<Rightarrow> page_data scraper" where
  "demo_run_scrape w s =
     (case demo_navigate_to_page w s of
        (False, s1) \<Rightarrow> s1\<lparr>scrape_data := (scrape_data s1)\<lparr>success := False\<rparr>\<rparr>
      | (True, s1) \<Rightarrow>
          (case demo_save_html w s1 of
             (html_file', s2) \<Rightarrow>
               (case demo_save_screenshot w s2 of
                  (screenshot_file', s3) \<Rightarrow>
                    (case demo_extract_data w s3 of
                       (hs, s4) \<Rightarrow>
                         display_results
                           (s4\<lparr>scrape_data := (scrape_data s4)\<lparr>success := True, extracted_data := Some hs\<rparr>\<rparr>)))))"

text \<open>\<open>main\<close> of demo_scraper.py; \<open>__aexit__\<close> runs \<open>cleanup\<close> once the block is left.\<close>

definition demo_main :: "world \<Rightarrow> page_data results \<times> page_data scraper" where
  "demo_main w =
     (case start_browser w (demo_init w HEADLESS LOCALE) of
        (Inl e, s) \<Rightarrow> (MainError e, s)
      | (Inr _, s) \<Rightarrow>
          (let s' = demo_run_scrape w s in (Scraped (scrape_data s'), cleanup w s')))"

definition demo_scraper_main_block :: "world \<Rightarrow> int \<times> page_data results \<times> page_data scraper" where
  "demo_scraper_main_block w =
     (case demo_main w of (r, s) \<Rightarrow> ((if get_success r then 0 else 1), r, s))"

text \<open>
  run_demo.py: \<open>run_demo\<close> calls \<open>main\<close> of demo_scraper.py, prints its summary and returns
  \<open>results.get('success', False)\<close>; the block exits with \<open>0 if success else 1\<close>.
\<close>

definition run_demo :: "world \<Rightarrow> bool \<times> page_data results \<times> page_data scraper" where
  "run_demo w = (case demo_main w of (r, s) \<Rightarrow> (get_success r, r, emit (Enter Summary) s))"

definition run_demo_main_block :: "world \<Rightarrow> int \<times> page_data results \<times> page_data scraper" where
  "run_demo_main_block w =
     (case run_demo w of (ok, r, s) \<Rightarrow> ((if ok then 0 else 1), r, s))"

section \<open>TestScraper\<close>

definition TEST_URL :: string where
  "TEST_URL = ''https://example.com''"

definition test_OUTPUT_DIR :: string where
  "test_OUTPUT_DIR = ''data/test_scrapes''"

definition test_SCREENSHOTS_DIR :: string where
  "test_SCREENSHOTS_DIR = path_join test_OUTPUT_DIR ''screenshots''"

definition test_HTML_DIR :: string where
  "test_HTML_DIR = path_join test_OUTPUT_DIR ''html''"

definition test_init :: "world \<Rightarrow> bool \<Rightarrow> string \<Rightarrow> page_data scraper" where
  "test_init w hl loc =
     \<lparr>headless = hl, self_locale = loc, browser = False, self_context = False, page = False,
      self_timestamp = now w,
      scrape_data =
        \<lparr>timestamp = now w, url = TEST_URL, data_locale = loc, success = False,
         html_file = None, screenshot_file = None, errors = [],
         title = None, headings_found = 0, extracted_data = None\<rparr>,
      trace = [], logged = []\<rparr>"

definition test_navigate_except :: "string \<Rightarrow> page_data scraper \<Rightarrow> bool \<times> page_data scraper" where
  "test_navigate_except e s = (False, record_error (''Failed to navigate to page: '' @ e) s)"

definition test_navigate_to_page :: "world \<Rightarrow> page_data scraper \<Rightarrow> bool \<times> page_data scraper" where
  "test_navigate_to_page w s =
     (case page_call (emit (Enter Navigate) s) ''goto'' (Goto TEST_URL) (goto w) of
        (Inl e, s1) \<Rightarrow> test_navigate_except e s1
      | (Inr _, s1) \<Rightarrow>
          (case page_call s1 ''wait_for_load_state'' (WaitForLoadState ''domcontentloaded'')
                  (wait_for_load_state w ''domcontentloaded'') of
             (Inl e, s2) \<Rightarrow> test_navigate_except e s2
           | (Inr _, s2) \<Rightarrow>
               (case page_call s2 ''title'' Title (page_title w) of
                  (Inl e, s3) \<Rightarrow> test_navigate_except e s3
                | (Inr t, s3) \<Rightarrow>
                    (True, s3\<lparr>scrape_data := (scrape_data s3)\<lparr>title := Some t\<rparr>\<rparr>))))"

definition test_save_html :: "world \<Rightarrow> page_data scraper \<Rightarrow> string option \<times> page_data scraper" where
  "test_save_html w s =
     (case page_call (emit (Enter SaveHtml) s) ''content'' Content (content w) of
        (Inl e, s1) \<Rightarrow> save_html_except e s1
      | (Inr html_content, s1) \<Rightarrow>
          (let html_filename = ''test_page_'' @ self_timestamp s @ ''.html'';
               html_filepath = path_join test_HTML_DIR html_filename;
               s2 = emit (Call (WriteFile html_filepath html_content)) s1
           in case write_file w of
                Inl e \<Rightarrow> save_html_except e s2
              | Inr _ \<Rightarrow>
                  (Some html_filepath,
                   s2\<lparr>scrape_data := (scrape_data s2)\<lparr>html_file := Some html_filepath\<rparr>\<rparr>)))"

definition test_save_screenshot :: "world \<Rightarrow> page_data scraper \<Rightarrow> string option \<times> page_data scraper" where
  "test_save_screenshot w s =
     (let s0 = emit (Enter SaveShot) s;
          screenshot_filename = ''test_page_'' @ self_timestamp s @ ''.png'';
          screenshot_filepath = path_join test_SCREENSHOTS_DIR screenshot_filename
      in case page_call s0 ''screenshot'' (Screenshot screenshot_filepath) (screenshot w) of
           (Inl e, s1) \<Rightarrow> save_screenshot_except e s1
         | (Inr _, s1) \<Rightarrow>
             (Some screenshot_filepath,
              s1\<lparr>scrape_data := (scrape_data s1)\<lparr>screenshot_file := Some screenshot_filepath\<rparr>\<rparr>))"

definition test_extract_data :: "world \<Rightarrow> page_data scraper \<Rightarrow> heading list \<times> page_data scraper" where
  "test_extract_data w s =
     (case page_call (emit (Enter Extract) s) ''wait_for_load_state'' (WaitForLoadState ''networkidle'')
             (wait_for_load_state w ''networkidle'') of
        (Inl e, s1) \<Rightarrow> extract_data_except e s1
      | (Inr _, s1) \<Rightarrow>
          (let s2 = emit (Call (QuerySelectorAll heading_selector)) s1
           in case query_selector_all w of
                Inl e \<Rightarrow> extract_data_except e s2
              | Inr n \<Rightarrow>
                  (case heading_loop w [0 ..< n] [] s2 of
                     (hs, s3) \<Rightarrow>
                       (hs, s3\<lparr>scrape_data := (scrape_data s3)\<lparr>headings_found := length hs\<rparr>\<rparr>))))"

definition test_run_scrape :: "world \<Rightarrow> page_data scraper \<Rightarrow> page_data scraper" where
  "test_run_scrape w s =
     (case test_navigate_to_page w s of
        (False, s1) \<Rightarrow> s1\<lparr>scrape_data := (scrape_data s1)\<lparr>success := False\<rparr>\<rparr>
      | (True, s1) \<Rightarrow>
          (case test_save_html w s1 of
             (html_file', s2) \<Rightarrow>
               (case test_save_screenshot w s2 of
                  (screenshot_file', s3) \<Rightarrow>
                    (case test_extract_data w s3 of
                       (hs, s4) \<Rightarrow>
                         display_results
                           (s4\<lparr>scrape_data := (scrape_data s4)\<lparr>success := True, extracted_data := Some hs\<rparr>\<rparr>)))))"

text \<open>\<open>main\<close> of test_scraper.py; \<open>__aexit__\<close> runs \<open>cleanup\<close> once the block is left.\<close>

definition test_main :: "world \<Rightarrow> page_data results \<times> page_data scraper" where
  "test_main w =
     (case start_browser w (test_init w HEADLESS LOCALE) of
        (Inl e, s) \<Rightarrow> (MainError e, s)
      | (Inr _, s) \<Rightarrow>
          (let s' = test_run_scrape w s in (Scraped (scrape_data s'), cleanup w s')))"

definition test_scraper_main_block :: "world \<Rightarrow> int \<times> page_data results \<times> page_data scraper" where
  "test_scraper_main_block w =
     (case test_main w of (r, s) \<Rightarrow> ((if get_success r then 0 else 1), r, s))"


section \<open>The pipeline of the specification\<close>

text \<open>
  The specification describes the scraper classes as one pipeline, navigate, save,
  extract, report, whose instances differ in configuration constants only. This is that
  pipeline, written once with the constants as a parameter: the URL, the output
  directory and the prefix of the file names.
\<close>

record config =
  cfg_url :: string
  cfg_output_dir :: string
  cfg_prefix :: string

definition pipeline_init :: "config \<Rightarrow> world \<Rightarrow> bool \<Rightarrow> string \<Rightarrow> page_data scraper" where
  "pipeline_init cfg w hl loc =
     \<lparr>headless = hl, self_locale = loc, browser = False, self_context = False, page = False,
      self_timestamp = now w,
      scrape_data =
        \<lparr>timestamp = now w, url = cfg_url cfg, data_locale = loc, success = False,
         html_file = None, screenshot_file = None, errors = [],
         title = None, headings_found = 0, extracted_data = None\<rparr>,
      trace = [], logged = []\<rparr>"

definition pipeline_fail :: "string \<Rightarrow> string \<Rightarrow> page_data scraper \<Rightarrow> page_data scraper" where
  "pipeline_fail what e s = record_error (''Failed to '' @ what @ '': '' @ e) s"

definition pipeline_navigate :: "config \<Rightarrow> world \<Rightarrow> page_data scraper \<Rightarrow> bool \<times> page_data scraper" where
  "pipeline_navigate cfg w s =
     (case page_call (emit (Enter Navigate) s) ''goto'' (Goto (cfg_url cfg)) (goto w) of
        (Inl e, s1) \<Rightarrow> (False, pipeline_fail ''navigate to page'' e s1)
      | (Inr _, s1) \<Rightarrow>
          (case page_call s1 ''wait_for_load_state'' (WaitForLoadState ''domcontentloaded'')
                  (wait_for_load_state w ''domcontentloaded'') of
             (Inl e, s2) \<Rightarrow> (False, pipeline_fail ''navigate to page'' e s2)
           | (Inr _, s2) \<Rightarrow>
               (case page_call s2 ''title'' Title (page_title w) of
                  (Inl e, s3) \<Rightarrow> (False, pipeline_fail ''navigate to page'' e s3)
                | (Inr t, s3) \<Rightarrow>
                    (True, s3\<lparr>scrape_data := (scrape_data s3)\<lparr>title := Some t\<rparr>\<rparr>))))"

definition pipeline_save_html :: "config \<Rightarrow> world \<Rightarrow> page_data scraper \<Rightarrow> string option \<times> page_data scraper" where
  "pipeline_save_html cfg w s =
     (case page_call (emit (Enter SaveHtml) s) ''content'' Content (content w) of
        (Inl e, s1) \<Rightarrow> (None, pipeline_fail ''save HTML'' e s1)
      | (Inr html_content, s1) \<Rightarrow>
          (let path = path_join (path_join (cfg_output_dir cfg) ''html'')
                        (cfg_prefix cfg @ self_timestamp s @ ''.html'');
               s2 = emit (Call (WriteFile path html_content)) s1
           in case write_file w of
                Inl e \<Rightarrow> (None, pipeline_fail ''save HTML'' e s2)
              | Inr _ \<Rightarrow> (Some path, s2\<lparr>scrape_data := (scrape_data s2)\<lparr>html_file := Some path\<rparr>\<rparr>)))"

definition pipeline_save_screenshot :: "config \<Rightarrow> world \<Rightarrow> page_data scraper \<Rightarrow> string option \<times> page_data scraper" where
  "pipeline_save_screenshot cfg w s =
     (let path = path_join (path_join (cfg_output_dir cfg) ''screenshots'')
                   (cfg_prefix cfg @ self_timestamp s @ ''.png'')
      in case page_call (emit (Enter SaveShot) s) ''screenshot'' (Screenshot path) (screenshot w) of
           (Inl e, s1) \<Rightarrow> (None, pipeline_fail ''save screenshot'' e s1)
         | (Inr _, s1) \<Rightarrow>
             (Some path, s1\<lparr>scrape_data := (scrape_data s1)\<lparr>screenshot_file := Some path\<rparr>\<rparr>))"

definition pipeline_extract :: "world \<Rightarrow> page_data scraper \<Rightarrow> heading list \<times> page_data scraper" where
  "pipeline_extract w s =
     (case page_call (emit (Enter Extract) s) ''wait_for_load_state'' (WaitForLoadState ''networkidle'')
             (wait_for_load_state w ''networkidle'') of
        (Inl e, s1) \<Rightarrow> ([], pipeline_fail ''extract data'' e s1)
      | (Inr _, s1) \<Rightarrow>
          (case query_selector_all w of
             Inl e \<Rightarrow> ([], pipeline_fail ''extract data'' e (emit (Call (QuerySelectorAll heading_selector)) s1))
           | Inr n \<Rightarrow>
               (case heading_loop w [0 ..< n] [] (emit (Call (QuerySelectorAll heading_selector)) s1) of
                  (hs, s3) \<Rightarrow>
                    (hs, s3\<lparr>scrape_data := (scrape_data s3)\<lparr>headings_found := length hs\<rparr>\<rparr>))))"

definition pipeline_run :: "config \<Rightarrow> world \<Rightarrow> page_data scraper \<Rightarrow> page_data scraper" where
  "pipeline_run cfg w s =
     (case pipeline_navigate cfg w s of
        (False, s1) \<Rightarrow> s1\<lparr>scrape_data := (scrape_data s1)\<lparr>success := False\<rparr>\<rparr>
      | (True, s1) \<Rightarrow>
          (let s2 = snd (pipeline_save_html cfg w s1);
               s3 = snd (pipeline_save_screenshot cfg w s2);
               (hs, s4) = pipeline_extract w s3
           in emit (Enter Report)
                (s4\<lparr>scrape_data := (scrape_data s4)\<lparr>success := True, extracted_data := Some hs\<rparr>\<rparr>)))"

definition pipeline_main :: "config \<Rightarrow> world \<Rightarrow> page_data results \<times> page_data scraper" where
  "pipeline_main cfg w =
     (case start_browser w (pipeline_init cfg w True ''en-US'') of
        (Inl e, s) \<Rightarrow> (MainError e, s)
      | (Inr _, s) \<Rightarrow>
          (let s' = pipeline_run cfg w s in (Scraped (scrape_data s'), cleanup w s')))"

definition pipeline_exit :: "config \<Rightarrow> world \<Rightarrow> int \<times> page_data results \<times> page_data scraper" where
  "pipeline_exit cfg w =
     (case pipeline_main cfg w of (r, s) \<Rightarrow> ((if get_success r then 0 else 1), r, s))"

definition demo_config :: config where
  "demo_config = \<lparr>cfg_url = ''https://httpbin.org/html'', cfg_output_dir = ''data/demo_scrapes'',
                  cfg_prefix = ''demo_page_''\<rparr>"

definition test_config :: config where
  "test_config = \<lparr>cfg_url = ''https://example.com'', cfg_output_dir = ''data/test_scrapes'',
                  cfg_prefix = ''test_page_''\<rparr>"

section \<open>Configuration values of config.py\<close>

text \<open>The two entries of \<open>SCRAPING_CONFIG\<close> that describe retrying.\<close>

definition max_retries :: nat where
  "max_retries = 3"

definition retry_delay :: nat where
  "retry_delay = 5"

section \<open>Concrete browsers\<close>

text \<open>
  A browser in which every call succeeds: the page is titled as the Zara homepage, no
  cookie popup is found, two links and one heading are on the page.
\<close>

definition world_ok :: world where
  "world_ok =
     \<lparr>now = ''20250101_120000'',
      pw_start = Inr (), launch = Inr (), new_context = Inr (), new_page = Inr (),
      goto = Inr (), wait_for_load_state = (\<lambda>st. Inr ()),
      locator_count = (\<lambda>sel. Inr 0), locator_click = (\<lambda>sel. Inr ()),
      role_count = Inr 0, role_click = Inr (),
      page_title = Inr ''ZARA United States'', content = Inr ''<html></html>'',
      write_file = Inr (), screenshot = Inr (),
      banner_count = Inr 2,
      get_attribute = (\<lambda>i. Inr (Some ''/shop'')), inner_text = (\<lambda>i. Inr '' SHOP NOW ''),
      query_selector_all = Inr 1,
      heading_text = (\<lambda>i. Inr ''Herman Melville''), heading_tag = (\<lambda>i. Inr ''h1''),
      context_close = Inr (), browser_stop = Inr ()\<rparr>"

text \<open>A started scraper with nothing done yet, for statements about a single method.\<close>

definition started :: "zara_data scraper" where
  "started = (zara_init world_ok True ''en-US'')\<lparr>browser := True, self_context := True, page := True\<rparr>"


section \<open>Notions used to state the properties\<close>

text \<open>
  \<open>observes s s'\<close>: the scraper \<open>s'\<close> is \<open>s\<close> with more observations; the object's own
  attributes are the same.
\<close>

definition observes :: "'d scraper \<Rightarrow> 'd scraper \<Rightarrow> bool" where
  "observes s s' \<longleftrightarrow>
     scrape_data s' = scrape_data s \<and> page s' = page s \<and> browser s' = browser s \<and>
     self_context s' = self_context s \<and> self_timestamp s' = self_timestamp s"

text \<open>
  \<open>caught msg s s'\<close>: between \<open>s\<close> and \<open>s'\<close> one exception was handled the blanket way: its
  message is the last error-level log record and the one new entry of the error list;
  nothing else of the result record has changed.
\<close>

definition caught :: "string \<Rightarrow> ('a scrape_data_scheme) scraper \<Rightarrow> ('a scrape_data_scheme) scraper \<Rightarrow> bool" where
  "caught msg s s' \<longleftrightarrow>
     scrape_data s' = (scrape_data s)\<lparr>errors := errors (scrape_data s) @ [msg]\<rparr> \<and>
     logged s' \<noteq> [] \<and> last (logged s') = (ERROR, msg)"

text \<open>
  The exception, if any, that the browser calls of an operation's own \<open>try\<close> block raise:
  the first failing call in the order the operation makes them.
\<close>

definition start_raises :: "world \<Rightarrow> string option" where
  "start_raises w =
     (case pw_start w of Inl e \<Rightarrow> Some e | Inr _ \<Rightarrow>
      case launch w of Inl e \<Rightarrow> Some e | Inr _ \<Rightarrow>
      case new_context w of Inl e \<Rightarrow> Some e | Inr _ \<Rightarrow>
      case new_page w of Inl e \<Rightarrow> Some e | Inr _ \<Rightarrow> None)"

definition navigate_raises :: "world \<Rightarrow> 'd scraper \<Rightarrow> string option" where
  "navigate_raises w s =
     (if \<not> page s then Some (none_attr ''goto'') else
      case goto w of Inl e \<Rightarrow> Some e | Inr _ \<Rightarrow>
      case wait_for_load_state w ''domcontentloaded'' of Inl e \<Rightarrow> Some e | Inr _ \<Rightarrow>
      case page_title w of Inl e \<Rightarrow> Some e | Inr _ \<Rightarrow> None)"

definition save_html_raises :: "world \<Rightarrow> 'd scraper \<Rightarrow> string option" where
  "save_html_raises w s =
     (if \<not> page s then Some (none_attr ''content'') else
      case content w of Inl e \<Rightarrow> Some e | Inr _ \<Rightarrow>
      case write_file w of Inl e \<Rightarrow> Some e | Inr _ \<Rightarrow> None)"

definition save_screenshot_raises :: "world \<Rightarrow> 'd scraper \<Rightarrow> string option" where
  "save_screenshot_raises w s =
     (if \<not> page s then Some (none_attr ''screenshot'') else
      case screenshot w of Inl e \<Rightarrow> Some e | Inr _ \<Rightarrow> None)"

definition extract_banners_raises :: "world \<Rightarrow> 'd scraper \<Rightarrow> string option" where
  "extract_banners_raises w s =
     (if \<not> page s then Some (none_attr ''wait_for_load_state'') else
      case wait_for_load_state w ''networkidle'' of Inl e \<Rightarrow> Some e | Inr _ \<Rightarrow>
      case banner_count w of Inl e \<Rightarrow> Some e | Inr _ \<Rightarrow> None)"


text \<open>The title check of \<open>navigate_to_homepage\<close>.\<close>

definition title_has_zara :: "world \<Rightarrow> bool" where
  "title_has_zara w = (case page_title w of Inl e \<Rightarrow> False | Inr t \<Rightarrow> str_in ''zara'' (lower t))"

text \<open>
  A selector is clickable when its count returns a positive number and the click on its
  first element returns; \<open>probe\<close> is what visiting one selector asks of the browser.
\<close>

definition positive_count :: "world \<Rightarrow> string \<Rightarrow> bool" where
  "positive_count w selector = (case locator_count w selector of Inl e \<Rightarrow> False | Inr n \<Rightarrow> n > 0)"

definition clickable :: "world \<Rightarrow> string \<Rightarrow> bool" where
  "clickable w selector \<longleftrightarrow> positive_count w selector \<and> locator_click w selector = Inr ()"

definition probe :: "world \<Rightarrow> string \<Rightarrow> event list" where
  "probe w selector =
     Call (LocatorCount selector) # (if positive_count w selector then [Call (LocatorClick selector)] else [])"

definition role_clickable :: "world \<Rightarrow> bool" where
  "role_clickable w \<longleftrightarrow> (case role_count w of Inl e \<Rightarrow> False | Inr n \<Rightarrow> n > 0) \<and> role_click w = Inr ()"

definition role_probe :: "world \<Rightarrow> event list" where
  "role_probe w =
     Call RoleCount # (if (case role_count w of Inl e \<Rightarrow> False | Inr n \<Rightarrow> n > 0) then [Call RoleClick] else [])"


text \<open>The step of the pipeline that makes a call.\<close>

fun owner :: "event \<Rightarrow> step" where
  "owner (Enter st) = st"
| "owner (Call PwStart) = Start"
| "owner (Call Launch) = Start"
| "owner (Call NewContext) = Start"
| "owner (Call NewPage) = Start"
| "owner (Call (Goto u)) = Navigate"
| "owner (Call (WaitForLoadState st)) = (if st = ''networkidle'' then Extract else Navigate)"
| "owner (Call Title) = Navigate"
| "owner (Call (Sleep n)) = Popup"
| "owner (Call (LocatorCount x)) = Popup"
| "owner (Call (LocatorClick x)) = Popup"
| "owner (Call RoleCount) = Popup"
| "owner (Call RoleClick) = Popup"
| "owner (Call Content) = SaveHtml"
| "owner (Call (WriteFile p c)) = SaveHtml"
| "owner (Call (Screenshot p)) = SaveShot"
| "owner (Call BannerCount) = Extract"
| "owner (Call (GetAttribute i)) = Extract"
| "owner (Call (InnerText i)) = Extract"
| "owner (Call (QuerySelectorAll x)) = Extract"
| "owner (Call (HeadingText i)) = Extract"
| "owner (Call (HeadingTag i)) = Extract"
| "owner (Call ContextClose) = Cleanup"
| "owner (Call BrowserStop) = Cleanup"

text \<open>
  \<open>emits s s' A sts\<close>: from \<open>s\<close> to \<open>s'\<close> the trace grew by events that are pairwise
  different, belong to the steps \<open>A\<close>, and enter the steps \<open>sts\<close> in this order.
\<close>

definition emits :: "'d scraper \<Rightarrow> 'd scraper \<Rightarrow> step set \<Rightarrow> step list \<Rightarrow> bool" where
  "emits s s' A sts \<longleftrightarrow>
     (\<exists>evs. trace s' = trace s @ evs \<and> distinct evs \<and> owner ` set evs \<subseteq> A \<and> steps_of evs = sts)"

text \<open>The order of the steps in \<open>ZaraScraper.run_scrape\<close>, and the steps one call performs.\<close>

definition zara_steps :: "step list" where
  "zara_steps = [Navigate, Popup, SaveHtml, SaveShot, Extract, Report]"

definition performed :: "world \<Rightarrow> zara_data scraper \<Rightarrow> step list" where
  "performed w s = drop (length (steps_of (trace s))) (steps_of (trace (run_scrape w s)))"


text \<open>The paths of the two files of a ZaraScraper with timestamp \<open>ts\<close>.\<close>

definition zara_html_path :: "string \<Rightarrow> string" where
  "zara_html_path ts = ''data/scrapes/html/zara_homepage_'' @ ts @ ''.html''"

definition zara_screenshot_path :: "string \<Rightarrow> string" where
  "zara_screenshot_path ts = ''data/scrapes/screenshots/zara_homepage_'' @ ts @ ''.png''"


text \<open>
  The selectors the loop of \<open>handle_cookie_popup\<close> visits: those before the first clickable
  one, and that one.
\<close>

definition visited :: "world \<Rightarrow> string list \<Rightarrow> string list" where
  "visited w sels =
     takeWhile (\<lambda>x. \<not> clickable w x) sels @ take 1 (dropWhile (\<lambda>x. \<not> clickable w x) sels)"

text \<open>
  Browsers for the examples: one that refuses the page content, the screenshot and the
  count of links; one that turns the scraper away with another page; one whose first
  cookie button cannot be clicked; one in which every selector probe fails.
\<close>

definition world_saves_fail :: world where
  "world_saves_fail =
     world_ok\<lparr>content := Inl ''Target closed'', screenshot := Inl ''Target closed'',
              banner_count := Inl ''Timeout 30000ms exceeded''\<rparr>"

definition world_denied :: world where
  "world_denied = world_ok\<lparr>page_title := Inr ''Access Denied''\<rparr>"

definition world_stuck_button :: world where
  "world_stuck_button =
     world_ok\<lparr>locator_count := (\<lambda>sel. Inr 1),
              locator_click := (\<lambda>sel. if sel = cookie_selectors ! 0 then Inl ''Timeout 30000ms exceeded''
                                       else Inr ())\<rparr>"


definition world_offline :: world where
  "world_offline = world_ok\<lparr>goto := Inl ''net::ERR_NAME_NOT_RESOLVED''\<rparr>"


text \<open>The traces of the five command-line entry points in one browser.\<close>

definition entry_point_traces :: "world \<Rightarrow> event list list" where
  "entry_point_traces w =
     [trace (snd (snd (zara_scraper_main_block w))), trace (snd (snd (run_scraper_main_block w))),
      trace (snd (snd (demo_scraper_main_block w))), trace (snd (snd (run_demo_main_block w))),
      trace (snd (snd (test_scraper_main_block w)))]"


section \<open>Basic facts\<close>

lemma steps_of_append [simp]: "steps_of (xs @ ys) = steps_of xs @ steps_of ys"
  by (induction xs rule: steps_of.induct) simp_all

lemma emit_simps [simp]:
  "trace (emit e s) = trace s @ [e]"
  "scrape_data (emit e s) = scrape_data s"
  "logged (emit e s) = logged s"
  "page (emit e s) = page s"
  "browser (emit e s) = browser s"
  "self_context (emit e s) = self_context s"
  "self_timestamp (emit e s) = self_timestamp s"
  by (simp_all add: emit_def)

lemma log_record_simps [simp]:
  "trace (log_record l m s) = trace s"
  "scrape_data (log_record l m s) = scrape_data s"
  "logged (log_record l m s) = logged s @ [(l, m)]"
  "page (log_record l m s) = page s"
  "browser (log_record l m s) = browser s"
  "self_context (log_record l m s) = self_context s"
  "self_timestamp (log_record l m s) = self_timestamp s"
  by (simp_all add: log_record_def)

lemma record_error_simps [simp]:
  "trace (record_error m s) = trace s"
  "scrape_data (record_error m s) = (scrape_data s)\<lparr>errors := errors (scrape_data s) @ [m]\<rparr>"
  "logged (record_error m s) = logged s @ [(ERROR, m)]"
  "page (record_error m s) = page s"
  "browser (record_error m s) = browser s"
  "self_context (record_error m s) = self_context s"
  "self_timestamp (record_error m s) = self_timestamp s"
  by (simp_all add: record_error_def)

lemma cookie_loop_observes: "cookie_loop w sels s = (b, s') \<Longrightarrow> observes s s'"
proof (induction sels arbitrary: s)
  case Nil
  then show ?case by (simp add: observes_def)
next
  case (Cons sel sels)
  then show ?case
    by (fastforce simp: observes_def page_call_def selector_failed_def Let_def split: if_splits sum.splits)
qed

lemma handle_cookie_popup_observes: "handle_cookie_popup w s = (b, s') \<Longrightarrow> observes s s'"
  by (auto simp: handle_cookie_popup_def page_call_def observes_def Let_def
      split: prod.splits bool.splits sum.splits if_splits dest!: cookie_loop_observes)

lemma navigate_char:
  assumes "navigate_to_homepage w s = (b, s')"
  shows "page s' = page s \<and> self_timestamp s' = self_timestamp s \<and>
         (case navigate_raises w s of
            Some e \<Rightarrow> \<not> b \<and> caught (''Failed to navigate to homepage: '' @ e) s s'
          | None \<Rightarrow> scrape_data s' = scrape_data s \<and> b = title_has_zara w)"
  using assms
  by (auto simp: navigate_to_homepage_def navigate_except_def page_call_def observes_def
      navigate_raises_def caught_def title_has_zara_def
      split: prod.splits sum.splits if_splits dest!: handle_cookie_popup_observes)

lemma save_html_char:
  assumes "save_html w s = (r, s')"
  shows "page s' = page s \<and> self_timestamp s' = self_timestamp s \<and>
         (case save_html_raises w s of
            Some e \<Rightarrow> r = None \<and> caught (''Failed to save HTML: '' @ e) s s'
          | None \<Rightarrow> r = Some (zara_html_path (self_timestamp s)) \<and>
                    scrape_data s' = (scrape_data s)\<lparr>html_file := r\<rparr>)"
  using assms
  by (auto simp: save_html_def save_html_except_def page_call_def save_html_raises_def caught_def
      zara_html_path_def path_join_def HTML_DIR_def OUTPUT_DIR_def Let_def
      split: prod.splits sum.splits if_splits)

lemma save_screenshot_char:
  assumes "save_screenshot w s = (r, s')"
  shows "page s' = page s \<and> self_timestamp s' = self_timestamp s \<and>
         (case save_screenshot_raises w s of
            Some e \<Rightarrow> r = None \<and> caught (''Failed to save screenshot: '' @ e) s s'
          | None \<Rightarrow> r = Some (zara_screenshot_path (self_timestamp s)) \<and>
                    scrape_data s' = (scrape_data s)\<lparr>screenshot_file := r\<rparr>)"
  using assms
  by (auto simp: save_screenshot_def save_screenshot_except_def page_call_def save_screenshot_raises_def caught_def
      zara_screenshot_path_def path_join_def SCREENSHOTS_DIR_def OUTPUT_DIR_def Let_def
      split: prod.splits sum.splits if_splits)

lemma banner_loop_observes: "banner_loop w is bs s = (bs', s') \<Longrightarrow> observes s s'"
proof (induction "is" arbitrary: bs s)
  case Nil
  then show ?case by (simp add: observes_def)
next
  case (Cons i "is")
  then show ?case
    by (fastforce simp: observes_def banner_failed_def Let_def split: if_splits sum.splits option.splits)
qed


lemma extract_char:
  assumes "extract_hero_banners w s = (bs, s')"
  shows "page s' = page s \<and> self_timestamp s' = self_timestamp s \<and>
         (case extract_banners_raises w s of
            Some e \<Rightarrow> bs = [] \<and> caught (''Failed to extract banners: '' @ e) s s'
          | None \<Rightarrow> scrape_data s' = (scrape_data s)\<lparr>banners_found := length bs\<rparr>)"
  using assms
  by (auto simp: extract_hero_banners_def extract_except_def page_call_def extract_banners_raises_def caught_def
      Let_def observes_def
      split: prod.splits sum.splits if_splits dest!: banner_loop_observes)



lemma run_scrape_success: "success (scrape_data (run_scrape w s)) = fst (navigate_to_homepage w s)"
  by (auto simp: run_scrape_def display_results_def split: prod.splits bool.splits)

lemma run_scrape_failed:
  assumes "\<not> fst (navigate_to_homepage w s)"
  shows "run_scrape w s = (snd (navigate_to_homepage w s))\<lparr>scrape_data := (scrape_data (snd (navigate_to_homepage w s)))\<lparr>success := False\<rparr>\<rparr>"
  using assms by (auto simp: run_scrape_def split: prod.splits bool.splits)

lemma start_browser_char:
  assumes "start_browser w s = (r, s')"
  shows "self_timestamp s' = self_timestamp s \<and>
         (case start_raises w of
            Some e \<Rightarrow> r = Inl e \<and> caught (''Failed to start browser: '' @ e) s s'
          | None \<Rightarrow> r = Inr () \<and> scrape_data s' = scrape_data s \<and> page s' \<and> browser s' \<and> self_context s')"
  using assms
  by (auto simp: start_browser_def start_browser_except_def start_raises_def caught_def Let_def
      split: sum.splits)

lemma start_browser_trace:
  assumes "start_browser w s = (Inr u, s')"
  shows "trace s' = trace s @ [Enter Start, Call PwStart, Call Launch, Call NewContext, Call NewPage]"
  using assms
  by (auto simp: start_browser_def start_browser_except_def Let_def split: sum.splits)



section \<open>Traces of the ZaraScraper operations\<close>

lemma emitsI:
  "trace s' = trace s @ evs \<Longrightarrow> distinct evs \<Longrightarrow> owner ` set evs \<subseteq> A \<Longrightarrow> steps_of evs = sts \<Longrightarrow> emits s s' A sts"
  unfolding emits_def by blast

lemma emits_trans:
  assumes "emits s s' A x" and "emits s' s'' B y" and "A \<inter> B = {}"
  shows "emits s s'' (A \<union> B) (x @ y)"
proof -
  from assms(1) obtain e1 where e1: "trace s' = trace s @ e1" "distinct e1" "owner ` set e1 \<subseteq> A" "steps_of e1 = x"
    unfolding emits_def by blast
  from assms(2) obtain e2 where e2: "trace s'' = trace s' @ e2" "distinct e2" "owner ` set e2 \<subseteq> B" "steps_of e2 = y"
    unfolding emits_def by blast
  have "set e1 \<inter> set e2 = {}"
    using e1(3) e2(3) assms(3) by blast
  with e1 e2 show ?thesis
    by (intro emitsI[of _ _ "e1 @ e2"]) auto
qed

lemma emits_mono: "emits s s' A x \<Longrightarrow> A \<subseteq> B \<Longrightarrow> emits s s' B x"
  unfolding emits_def by blast

lemma emits_same_trace: "emits s s' A x \<Longrightarrow> trace s'' = trace s' \<Longrightarrow> emits s s'' A x"
  unfolding emits_def by simp

lemma steps_of_calls: "\<forall>e\<in>set evs. \<exists>c. e = Call c \<Longrightarrow> steps_of evs = []"
  by (induction evs rule: steps_of.induct) auto

lemma cookie_loop_events:
  "distinct sels \<Longrightarrow> cookie_loop w sels s = (b, s') \<Longrightarrow>
     \<exists>evs. trace s' = trace s @ evs \<and> distinct evs \<and>
           set evs \<subseteq> (\<lambda>x. Call (LocatorCount x)) ` set sels \<union> (\<lambda>x. Call (LocatorClick x)) ` set sels"
proof (induction sels arbitrary: s)
  case Nil
  then show ?case by simp
next
  case (Cons x sels)
  let ?A = "(\<lambda>x. Call (LocatorCount x)) ` set sels \<union> (\<lambda>x. Call (LocatorClick x)) ` set sels"
  have d: "distinct sels" "x \<notin> set sels" using Cons.prems(1) by auto
  have fresh: "Call (LocatorCount x) \<notin> ?A" "Call (LocatorClick x) \<notin> ?A" using d by auto
  consider (stop) pre where "trace s' = trace s @ pre" "pre = [Call (LocatorCount x), Call (LocatorClick x)]"
    | (go) s1 pre where "cookie_loop w sels s1 = (b, s')" "trace s1 = trace s @ pre"
        "pre = [] \<or> pre = [Call (LocatorCount x)] \<or> pre = [Call (LocatorCount x), Call (LocatorClick x)]"
    using Cons.prems(2)
    by (auto simp: page_call_def selector_failed_def Let_def split: if_splits sum.splits)
  then show ?case
  proof cases
    case stop
    then show ?thesis by (intro exI[of _ pre]) auto
  next
    case go
    from Cons.IH[OF d(1) go(1)] obtain evs where evs: "trace s' = trace s1 @ evs" "distinct evs" "set evs \<subseteq> ?A"
      by blast
    have "set pre \<inter> set evs = {}" using go(3) evs(3) fresh by auto
    moreover have "distinct pre" using go(3) by auto
    moreover have "set pre \<subseteq> {Call (LocatorCount x), Call (LocatorClick x)}" using go(3) by auto
    ultimately show ?thesis using evs go(2)
      by (intro exI[of _ "pre @ evs"]) auto
  qed
qed

lemma banner_loop_events:
  "distinct is \<Longrightarrow> banner_loop w is bs s = (bs', s') \<Longrightarrow>
     \<exists>evs. trace s' = trace s @ evs \<and> distinct evs \<and>
           set evs \<subseteq> (\<lambda>i. Call (GetAttribute i)) ` set is \<union> (\<lambda>i. Call (InnerText i)) ` set is"
proof (induction "is" arbitrary: bs s)
  case Nil
  then show ?case by simp
next
  case (Cons i "is")
  let ?A = "(\<lambda>i. Call (GetAttribute i)) ` set is \<union> (\<lambda>i. Call (InnerText i)) ` set is"
  have d: "distinct is" "i \<notin> set is" using Cons.prems(1) by auto
  have fresh: "Call (GetAttribute i) \<notin> ?A" "Call (InnerText i) \<notin> ?A" using d by auto
  obtain s1 bs1 pre where go: "banner_loop w is bs1 s1 = (bs', s')" "trace s1 = trace s @ pre"
        "pre = [Call (GetAttribute i)] \<or> pre = [Call (GetAttribute i), Call (InnerText i)]"
    using Cons.prems(2)
    by (auto simp: banner_failed_def Let_def split: if_splits sum.splits option.splits)
  from Cons.IH[OF d(1) go(1)] obtain evs where evs: "trace s' = trace s1 @ evs" "distinct evs" "set evs \<subseteq> ?A"
    by blast
  have "set pre \<inter> set evs = {}" using go(3) evs(3) fresh by auto
  moreover have "distinct pre" using go(3) by auto
  moreover have "set pre \<subseteq> {Call (GetAttribute i), Call (InnerText i)}" using go(3) by auto
  ultimately show ?case using evs go(2)
    by (intro exI[of _ "pre @ evs"]) auto
qed

lemma heading_loop_events:
  "distinct is \<Longrightarrow> heading_loop w is hs s = (hs', s') \<Longrightarrow>
     \<exists>evs. trace s' = trace s @ evs \<and> distinct evs \<and>
           set evs \<subseteq> (\<lambda>i. Call (HeadingText i)) ` set is \<union> (\<lambda>i. Call (HeadingTag i)) ` set is"
proof (induction "is" arbitrary: hs s)
  case Nil
  then show ?case by simp
next
  case (Cons i "is")
  let ?A = "(\<lambda>i. Call (HeadingText i)) ` set is \<union> (\<lambda>i. Call (HeadingTag i)) ` set is"
  have d: "distinct is" "i \<notin> set is" using Cons.prems(1) by auto
  have fresh: "Call (HeadingText i) \<notin> ?A" "Call (HeadingTag i) \<notin> ?A" using d by auto
  obtain s1 hs1 pre where go: "heading_loop w is hs1 s1 = (hs', s')" "trace s1 = trace s @ pre"
        "pre = [Call (HeadingText i)] \<or> pre = [Call (HeadingText i), Call (HeadingTag i)]"
    using Cons.prems(2)
    by (auto simp: heading_failed_def Let_def split: if_splits sum.splits)
  from Cons.IH[OF d(1) go(1)] obtain evs where evs: "trace s' = trace s1 @ evs" "distinct evs" "set evs \<subseteq> ?A"
    by blast
  have "set pre \<inter> set evs = {}" using go(3) evs(3) fresh by auto
  moreover have "distinct pre" using go(3) by auto
  moreover have "set pre \<subseteq> {Call (HeadingText i), Call (HeadingTag i)}" using go(3) by auto
  ultimately show ?case using evs go(2)
    by (intro exI[of _ "pre @ evs"]) auto
qed

lemma distinct_cookie_selectors: "distinct cookie_selectors"
  by (simp add: cookie_selectors_def)



lemma handle_cookie_popup_emits:
  assumes "handle_cookie_popup w s = (b, s')"
  shows "emits s s' {Popup} [Popup]"
proof -
  let ?s0 = "emit (Call (Sleep 2)) (emit (Enter Popup) s)"
  obtain b1 s1 where cl: "cookie_loop w cookie_selectors ?s0 = (b1, s1)"
    by (cases "cookie_loop w cookie_selectors ?s0") blast
  from cookie_loop_events[OF distinct_cookie_selectors cl]
  obtain evs where evs: "trace s1 = trace ?s0 @ evs" "distinct evs"
    "set evs \<subseteq> (\<lambda>x. Call (LocatorCount x)) ` set cookie_selectors \<union> (\<lambda>x. Call (LocatorClick x)) ` set cookie_selectors"
    by blast
  obtain post where post: "trace s' = trace s1 @ post"
    "post = [] \<or> post = [Call RoleCount] \<or> post = [Call RoleCount, Call RoleClick]"
    using assms cl
    by (auto simp: handle_cookie_popup_def page_call_def Let_def split: bool.splits sum.splits if_splits)
  let ?all = "[Enter Popup, Call (Sleep 2)] @ evs @ post"
  have calls: "\<forall>e\<in>set (evs @ post). \<exists>c. e = Call c" using evs(3) post(2) by auto
  have "trace s' = trace s @ ?all" using evs(1) post(1) by simp
  moreover have "distinct ?all" using evs(2,3) post(2) by auto
  moreover have "owner ` set ?all \<subseteq> {Popup}" using evs(3) post(2) by auto
  moreover have "steps_of ?all = [Popup]" using steps_of_calls[OF calls] by simp
  ultimately show ?thesis by (rule emitsI)
qed

lemma save_html_emits:
  assumes "save_html w s = (r, s')"
  shows "emits s s' {SaveHtml} [SaveHtml]"
proof -
  obtain pre where "trace s' = trace s @ pre"
    "pre = [Enter SaveHtml] \<or> pre = [Enter SaveHtml, Call Content] \<or>
     (\<exists>p c. pre = [Enter SaveHtml, Call Content, Call (WriteFile p c)])"
    using assms
    by (auto simp: save_html_def save_html_except_def page_call_def Let_def split: prod.splits sum.splits if_splits)
  then show ?thesis by (intro emitsI[of _ _ pre]) auto
qed

lemma save_screenshot_emits:
  assumes "save_screenshot w s = (r, s')"
  shows "emits s s' {SaveShot} [SaveShot]"
proof -
  obtain pre where "trace s' = trace s @ pre"
    "pre = [Enter SaveShot] \<or> (\<exists>p. pre = [Enter SaveShot, Call (Screenshot p)])"
    using assms
    by (auto simp: save_screenshot_def save_screenshot_except_def page_call_def Let_def split: prod.splits sum.splits if_splits)
  then show ?thesis by (intro emitsI[of _ _ pre]) auto
qed

lemma display_results_emits: "emits s (display_results s) {Report} [Report]"
  by (intro emitsI[of _ _ "[Enter Report]"]) (auto simp: display_results_def)

lemma start_browser_emits:
  assumes "start_browser w s = (r, s')"
  shows "emits s s' {Start} [Start]"
proof -
  obtain pre where "trace s' = trace s @ pre"
    "pre = [Enter Start, Call PwStart] \<or> pre = [Enter Start, Call PwStart, Call Launch] \<or>
     pre = [Enter Start, Call PwStart, Call Launch, Call NewContext] \<or>
     pre = [Enter Start, Call PwStart, Call Launch, Call NewContext, Call NewPage]"
    using assms
    by (auto simp: start_browser_def start_browser_except_def Let_def split: sum.splits)
  then show ?thesis by (intro emitsI[of _ _ pre]) auto
qed

lemma cleanup_emits: "emits s (cleanup w s) {Cleanup} [Cleanup]"
proof -
  have "trace (cleanup w s) = trace s @ [Enter Cleanup] \<or>
        trace (cleanup w s) = trace s @ [Enter Cleanup, Call ContextClose] \<or>
        trace (cleanup w s) = trace s @ [Enter Cleanup, Call BrowserStop] \<or>
        trace (cleanup w s) = trace s @ [Enter Cleanup, Call ContextClose, Call BrowserStop]"
    by (auto simp: cleanup_def Let_def split: prod.splits sum.splits if_splits)
  then obtain pre where "trace (cleanup w s) = trace s @ pre"
    "pre = [Enter Cleanup] \<or> pre = [Enter Cleanup, Call ContextClose] \<or> pre = [Enter Cleanup, Call BrowserStop] \<or>
     pre = [Enter Cleanup, Call ContextClose, Call BrowserStop]"
    by blast
  then show ?thesis by (intro emitsI[of _ _ pre]) auto
qed


lemma handle_cookie_popup_snd [simp]:
  "page (snd (handle_cookie_popup w s)) = page s"
  "scrape_data (snd (handle_cookie_popup w s)) = scrape_data s"
  "self_timestamp (snd (handle_cookie_popup w s)) = self_timestamp s"
  using handle_cookie_popup_observes[of w s "fst (handle_cookie_popup w s)" "snd (handle_cookie_popup w s)"]
  by (simp_all add: observes_def)

lemma banner_loop_snd [simp]:
  "page (snd (banner_loop w is bs s)) = page s"
  "scrape_data (snd (banner_loop w is bs s)) = scrape_data s"
  "self_timestamp (snd (banner_loop w is bs s)) = self_timestamp s"
  using banner_loop_observes[of w "is" bs s "fst (banner_loop w is bs s)" "snd (banner_loop w is bs s)"]
  by (simp_all add: observes_def)

lemma navigate_trace:
  assumes "navigate_to_homepage w s = (b, s')"
  shows "(\<not> b \<and> (trace s' = trace s @ [Enter Navigate] \<or> trace s' = trace s @ [Enter Navigate, Call (Goto ZARA_HOME_URL)] \<or>
          trace s' = trace s @ [Enter Navigate, Call (Goto ZARA_HOME_URL), Call (WaitForLoadState ''domcontentloaded'')]))
        \<or> (trace s' = trace (snd (handle_cookie_popup w (emit (Call (WaitForLoadState ''domcontentloaded'')) (emit (Call (Goto ZARA_HOME_URL)) (emit (Enter Navigate) s))))) @ [Call Title])"
  using assms
  apply (simp add: navigate_to_homepage_def navigate_except_def page_call_def case_prod_beta
        split: sum.splits if_splits)
  apply auto
  done

lemma not_in_by_owner: "owner ` set evs \<subseteq> A \<Longrightarrow> owner e \<notin> A \<Longrightarrow> e \<notin> set evs"
  by auto

lemma navigate_emits:
  assumes "navigate_to_homepage w s = (b, s')"
  shows "emits s s' {Navigate, Popup} [Navigate, Popup] \<or> (\<not> b \<and> emits s s' {Navigate} [Navigate])"
proof -
  let ?s2 = "emit (Call (WaitForLoadState ''domcontentloaded'')) (emit (Call (Goto ZARA_HOME_URL)) (emit (Enter Navigate) s))"
  let ?s3 = "snd (handle_cookie_popup w ?s2)"
  show ?thesis
  proof (cases "trace s' = trace ?s3 @ [Call Title]")
    case False
    with navigate_trace[OF assms] have nb: "\<not> b"
      and tr: "trace s' = trace s @ [Enter Navigate] \<or> trace s' = trace s @ [Enter Navigate, Call (Goto ZARA_HOME_URL)] \<or>
          trace s' = trace s @ [Enter Navigate, Call (Goto ZARA_HOME_URL), Call (WaitForLoadState ''domcontentloaded'')]"
      by auto
    from tr have "emits s s' {Navigate} [Navigate]"
    proof (elim disjE)
      assume "trace s' = trace s @ [Enter Navigate]"
      then show ?thesis by (rule emitsI) simp_all
    next
      assume "trace s' = trace s @ [Enter Navigate, Call (Goto ZARA_HOME_URL)]"
      then show ?thesis by (rule emitsI) simp_all
    next
      assume "trace s' = trace s @ [Enter Navigate, Call (Goto ZARA_HOME_URL), Call (WaitForLoadState ''domcontentloaded'')]"
      then show ?thesis by (rule emitsI) simp_all
    qed
    with nb show ?thesis by blast
  next
    case True
    have "handle_cookie_popup w ?s2 = (fst (handle_cookie_popup w ?s2), ?s3)" by simp
    from handle_cookie_popup_emits[OF this]
    obtain evs where evs: "trace ?s3 = trace ?s2 @ evs" "distinct evs" "owner ` set evs \<subseteq> {Popup}" "steps_of evs = [Popup]"
      unfolding emits_def by blast
    let ?all = "[Enter Navigate, Call (Goto ZARA_HOME_URL), Call (WaitForLoadState ''domcontentloaded'')] @ evs @ [Call Title]"
    have notin: "Enter Navigate \<notin> set evs" "Call (Goto ZARA_HOME_URL) \<notin> set evs"
       "Call (WaitForLoadState ''domcontentloaded'') \<notin> set evs" "Call Title \<notin> set evs"
      by (rule not_in_by_owner[OF evs(3)], simp)+
    have "trace s' = trace s @ ?all" using True evs(1) by simp
    moreover have "distinct ?all" using evs(2) notin by simp
    moreover have "owner ` set ?all \<subseteq> {Navigate, Popup}" using evs(3) by auto
    moreover have "steps_of ?all = [Navigate, Popup]" using evs(4) by simp
    ultimately have "emits s s' {Navigate, Popup} [Navigate, Popup]" by (rule emitsI)
    then show ?thesis by blast
  qed
qed



lemma extract_trace:
  assumes "extract_hero_banners w s = (bs, s')"
  shows "(trace s' = trace s @ [Enter Extract] \<or> trace s' = trace s @ [Enter Extract, Call (WaitForLoadState ''networkidle'')] \<or>
         trace s' = trace s @ [Enter Extract, Call (WaitForLoadState ''networkidle''), Call BannerCount])
        \<or> (case banner_count w of Inl e \<Rightarrow> False
            | Inr n \<Rightarrow> trace s' = trace (snd (banner_loop w [0 ..< min n 20] []
                   (emit (Call BannerCount) (emit (Call (WaitForLoadState ''networkidle'')) (emit (Enter Extract) s))))))"
  using assms
  apply (simp add: extract_hero_banners_def extract_except_def page_call_def Let_def
        split: sum.splits if_splits prod.splits)
  apply auto
  done

lemma extract_emits:
  assumes "extract_hero_banners w s = (bs, s')"
  shows "emits s s' {Extract} [Extract]"
proof -
  let ?s2 = "emit (Call BannerCount) (emit (Call (WaitForLoadState ''networkidle'')) (emit (Enter Extract) s))"
  from extract_trace[OF assms]
  consider (a) "trace s' = trace s @ [Enter Extract]"
    | (b) "trace s' = trace s @ [Enter Extract, Call (WaitForLoadState ''networkidle'')]"
    | (c) "trace s' = trace s @ [Enter Extract, Call (WaitForLoadState ''networkidle''), Call BannerCount]"
    | (loop) n where "trace s' = trace (snd (banner_loop w [0 ..< min n 20] [] ?s2))"
    by (auto split: sum.splits)
  then show ?thesis
  proof cases
    case a
    then show ?thesis by (rule emitsI) simp_all
  next
    case b
    then show ?thesis by (rule emitsI) simp_all
  next
    case c
    then show ?thesis by (rule emitsI) simp_all
  next
    case loop
    let ?r = "banner_loop w [0 ..< min n 20] [] ?s2"
    have "?r = (fst ?r, snd ?r)" by simp
    from banner_loop_events[OF _ this]
    obtain evs where evs: "trace (snd ?r) = trace ?s2 @ evs" "distinct evs"
      "set evs \<subseteq> (\<lambda>i. Call (GetAttribute i)) ` set [0 ..< min n 20] \<union> (\<lambda>i. Call (InnerText i)) ` set [0 ..< min n 20]"
      by auto
    let ?all = "[Enter Extract, Call (WaitForLoadState ''networkidle''), Call BannerCount] @ evs"
    have calls: "\<forall>e\<in>set evs. \<exists>c. e = Call c" using evs(3) by auto
    have own: "owner ` set evs \<subseteq> {Extract}" using evs(3) by auto
    have notin: "Enter Extract \<notin> set evs" "Call (WaitForLoadState ''networkidle'') \<notin> set evs" "Call BannerCount \<notin> set evs"
      using evs(3) by auto
    have "trace s' = trace s @ ?all" using loop evs(1) by simp
    moreover have "distinct ?all" using evs(2) notin by simp
    moreover have "owner ` set ?all \<subseteq> {Extract}" using own by simp
    moreover have "steps_of ?all = [Extract]" using steps_of_calls[OF calls] by simp
    ultimately show ?thesis by (rule emitsI)
  qed
qed


lemma run_scrape_emits:
  "\<exists>sts. emits s (run_scrape w s) (set zara_steps) sts \<and> prefix sts zara_steps \<and>
         (success (scrape_data (run_scrape w s)) \<longrightarrow> sts = zara_steps)"
proof -
  obtain b s1 where nav: "navigate_to_homepage w s = (b, s1)"
    by (cases "navigate_to_homepage w s") blast
  show ?thesis
  proof (cases b)
    case False
    with nav have rs: "trace (run_scrape w s) = trace s1" "\<not> success (scrape_data (run_scrape w s))"
      by (simp_all add: run_scrape_def)
    from navigate_emits[OF nav] have "emits s s1 {Navigate, Popup} [Navigate, Popup] \<or> emits s s1 {Navigate} [Navigate]"
      by blast
    then have "emits s s1 (set zara_steps) [Navigate, Popup] \<or> emits s s1 (set zara_steps) [Navigate]"
      using emits_mono[of s s1 "{Navigate, Popup}" _ "set zara_steps"] emits_mono[of s s1 "{Navigate}" _ "set zara_steps"]
      by (auto simp: zara_steps_def)
    then have "emits s (run_scrape w s) (set zara_steps) [Navigate, Popup] \<or> emits s (run_scrape w s) (set zara_steps) [Navigate]"
      using rs(1) emits_same_trace[of s s1 _ _ "run_scrape w s"] by auto
    moreover have "prefix [Navigate, Popup] zara_steps" "prefix [Navigate] zara_steps"
      by (simp_all add: zara_steps_def)
    ultimately show ?thesis using rs(2) by blast
  next
    case True
    obtain r2 s2 where h: "save_html w s1 = (r2, s2)" by (cases "save_html w s1") blast
    obtain r3 s3 where sh: "save_screenshot w s2 = (r3, s3)" by (cases "save_screenshot w s2") blast
    obtain bs s4 where ex: "extract_hero_banners w s3 = (bs, s4)" by (cases "extract_hero_banners w s3") blast
    let ?s5 = "s4\<lparr>scrape_data := (scrape_data s4)\<lparr>success := True, banners := Some bs\<rparr>\<rparr>"
    have rs: "run_scrape w s = display_results ?s5"
      using nav True h sh ex by (simp add: run_scrape_def)
    from navigate_emits[OF nav] True have e1: "emits s s1 {Navigate, Popup} [Navigate, Popup]" by blast
    note e2 = emits_trans[OF e1 save_html_emits[OF h]]
    have e12: "emits s s2 {Navigate, Popup, SaveHtml} [Navigate, Popup, SaveHtml]"
      using e2 by (simp add: insert_commute)
    have e13: "emits s s3 {Navigate, Popup, SaveHtml, SaveShot} [Navigate, Popup, SaveHtml, SaveShot]"
      using emits_trans[OF e12 save_screenshot_emits[OF sh]] by (simp add: insert_commute)
    have e14: "emits s s4 {Navigate, Popup, SaveHtml, SaveShot, Extract} [Navigate, Popup, SaveHtml, SaveShot, Extract]"
      using emits_trans[OF e13 extract_emits[OF ex]] by (simp add: insert_commute)
    have e14': "emits s ?s5 {Navigate, Popup, SaveHtml, SaveShot, Extract} [Navigate, Popup, SaveHtml, SaveShot, Extract]"
      using e14 by (rule emits_same_trace) simp
    have "emits s (run_scrape w s) (set zara_steps) zara_steps"
      using emits_trans[OF e14' display_results_emits[of ?s5]] rs
      by (simp add: zara_steps_def insert_commute)
    then show ?thesis by blast
  qed
qed


section \<open>The order of the steps\<close>






section \<open>Navigation decides the outcome\<close>

lemma emits_trace_grows: "emits s s' A x \<Longrightarrow> set (trace s) \<subseteq> set (trace s')"
  unfolding emits_def by auto

lemma run_scrape_failed_steps:
  assumes "\<not> fst (navigate_to_homepage w s)"
  shows "performed w s = [Navigate] \<or> performed w s = [Navigate, Popup]"
proof -
  let ?s1 = "snd (navigate_to_homepage w s)"
  have nav: "navigate_to_homepage w s = (fst (navigate_to_homepage w s), ?s1)" by simp
  have tr: "trace (run_scrape w s) = trace ?s1"
    using run_scrape_failed[OF assms] by simp
  from navigate_emits[OF nav] have "emits s ?s1 {Navigate, Popup} [Navigate, Popup] \<or> emits s ?s1 {Navigate} [Navigate]"
    by blast
  then have "steps_of (trace ?s1) = steps_of (trace s) @ [Navigate, Popup] \<or> steps_of (trace ?s1) = steps_of (trace s) @ [Navigate]"
    unfolding emits_def by auto
  then show ?thesis unfolding performed_def tr by auto
qed

text \<open>
  Claim C9. Whenever navigation returns \<open>True\<close>, \<open>run_scrape\<close> sets the success flag,
  whatever the two saves and the extraction do afterwards. In the browser
  \<open>world_saves_fail\<close> the process exits with code 0 although both file fields are \<open>None\<close>
  and the error list is not empty.
\<close>

theorem navigation_alone_sets_success:
  "(fst (navigate_to_homepage w s) \<longrightarrow> success (scrape_data (run_scrape w s))) \<and>
   fst (zara_scraper_main_block world_saves_fail) = 0 \<and>
   fst (snd (zara_scraper_main_block world_saves_fail)) =
     Scraped \<lparr>timestamp = ''20250101_120000'', url = ''https://www.zara.com/'', data_locale = ''en-US'',
              success = True, html_file = None, screenshot_file = None,
              errors = [''Failed to save HTML: Target closed'', ''Failed to save screenshot: Target closed'',
                        ''Failed to extract banners: Timeout 30000ms exceeded''],
              banners_found = 0, banners = Some []\<rparr>"
proof -
  have "fst (zara_scraper_main_block world_saves_fail) = 0" by code_simp
  moreover have "fst (snd (zara_scraper_main_block world_saves_fail)) =
     Scraped \<lparr>timestamp = ''20250101_120000'', url = ''https://www.zara.com/'', data_locale = ''en-US'',
              success = True, html_file = None, screenshot_file = None,
              errors = [''Failed to save HTML: Target closed'', ''Failed to save screenshot: Target closed'',
                        ''Failed to extract banners: Timeout 30000ms exceeded''],
              banners_found = 0, banners = Some []\<rparr>" by code_simp
  ultimately show ?thesis by (simp add: run_scrape_success)
qed

theorem navigation_alone_sets_success_witness:
  "fst (navigate_to_homepage world_saves_fail started) \<and>
   save_html_raises world_saves_fail started = Some ''Target closed'' \<and>
   save_screenshot_raises world_saves_fail started = Some ''Target closed'' \<and>
   success (scrape_data (run_scrape world_saves_fail started))"
proof -
  have nav: "fst (navigate_to_homepage world_saves_fail started)" by code_simp
  have h: "save_html_raises world_saves_fail started = Some ''Target closed''" by code_simp
  have sh: "save_screenshot_raises world_saves_fail started = Some ''Target closed''" by code_simp
  from navigation_alone_sets_success[of world_saves_fail started] nav h sh show ?thesis by simp
qed





section \<open>Extracted banners and output files\<close>

lemma save_html_written:
  assumes "save_html w s = (Some p, s')"
  shows "\<exists>c. content w = Inr c \<and> write_file w = Inr () \<and> Call (WriteFile p c) \<in> set (trace s')"
  using assms
  by (auto simp: save_html_def save_html_except_def page_call_def Let_def split: sum.splits if_splits)

lemma save_screenshot_made:
  assumes "save_screenshot w s = (Some p, s')"
  shows "screenshot w = Inr () \<and> Call (Screenshot p) \<in> set (trace s')"
  using assms
  by (auto simp: save_screenshot_def save_screenshot_except_def page_call_def Let_def split: sum.splits if_splits)







text \<open>
  Claim C6, as amended. In a ZaraScraper run whose success flag is set, each of
  \<open>html_file\<close> and \<open>screenshot_file\<close> is either \<open>None\<close> (the save raised) or the path
  under data/scrapes/html, data/scrapes/screenshots named zara_homepage_, the timestamp
  fixed by the constructor, and .html or .png. It is the path exactly when the save did
  not raise, the file was then written there (the screenshot taken there), and both
  paths carry the timestamp of the result record.
\<close>

theorem zara_output_files:
  assumes "main w = (Scraped d, s)" and "success d"
  shows "timestamp d = now w \<and>
         html_file d = (if (\<exists>c. content w = Inr c) \<and> write_file w = Inr ()
                        then Some (''data/scrapes/html/zara_homepage_'' @ timestamp d @ ''.html'') else None) \<and>
         screenshot_file d = (if screenshot w = Inr ()
                        then Some (''data/scrapes/screenshots/zara_homepage_'' @ timestamp d @ ''.png'') else None) \<and>
         (\<forall>p. html_file d = Some p \<longrightarrow> (\<exists>c. content w = Inr c \<and> Call (WriteFile p c) \<in> set (trace s))) \<and>
         (\<forall>p. screenshot_file d = Some p \<longrightarrow> Call (Screenshot p) \<in> set (trace s))"
proof -
  let ?i = "zara_init w HEADLESS LOCALE"
  from assms(1) obtain s0 where st: "start_browser w ?i = (Inr (), s0)" and rs: "s = run_scrape w s0" "d = scrape_data s"
    by (auto simp: main_def Let_def split: prod.splits sum.splits)
  from start_browser_char[OF st] have s0: "self_timestamp s0 = now w" "page s0" "scrape_data s0 = scrape_data ?i"
    by (auto simp: zara_init_def split: option.splits)
  have i: "timestamp (scrape_data ?i) = now w" "html_file (scrape_data ?i) = None" "screenshot_file (scrape_data ?i) = None"
    by (simp_all add: zara_init_def)
  obtain s1 where nav: "navigate_to_homepage w s0 = (True, s1)"
    using assms(2) rs run_scrape_success[of w s0] by (cases "navigate_to_homepage w s0") auto
  obtain r2 s2 where h: "save_html w s1 = (r2, s2)" by (cases "save_html w s1") blast
  obtain r3 s3 where sh: "save_screenshot w s2 = (r3, s3)" by (cases "save_screenshot w s2") blast
  obtain bs s4 where ex: "extract_hero_banners w s3 = (bs, s4)" by (cases "extract_hero_banners w s3") blast
  have run: "s = display_results (s4\<lparr>scrape_data := (scrape_data s4)\<lparr>success := True, banners := Some bs\<rparr>\<rparr>)"
    using rs(1) nav h sh ex by (simp add: run_scrape_def)
  have tr: "set (trace s4) \<subseteq> set (trace s)" unfolding run by (auto simp: display_results_def)
  have tr3: "set (trace s3) \<subseteq> set (trace s4)" using extract_emits[OF ex] by (rule emits_trace_grows)
  have tr2: "set (trace s2) \<subseteq> set (trace s3)" using save_screenshot_emits[OF sh] by (rule emits_trace_grows)
  from navigate_char[OF nav] s0 have s1: "page s1" "self_timestamp s1 = now w" "scrape_data s1 = scrape_data ?i"
    by (auto simp: caught_def split: option.splits)
  from save_html_char[OF h] s1 have s2: "page s2" "self_timestamp s2 = now w"
    "timestamp (scrape_data s2) = now w" "html_file (scrape_data s2) = r2" "screenshot_file (scrape_data s2) = None"
    "r2 = (if save_html_raises w s1 = None then Some (zara_html_path (now w)) else None)"
    using i by (auto simp: caught_def split: option.splits)
  from save_screenshot_char[OF sh] s2 have s3: "page s3" "self_timestamp s3 = now w"
    "timestamp (scrape_data s3) = now w" "html_file (scrape_data s3) = r2" "screenshot_file (scrape_data s3) = r3"
    "r3 = (if save_screenshot_raises w s2 = None then Some (zara_screenshot_path (now w)) else None)"
    by (auto simp: caught_def split: option.splits)
  from extract_char[OF ex] s3 have s4: 
    "timestamp (scrape_data s4) = now w" "html_file (scrape_data s4) = r2" "screenshot_file (scrape_data s4) = r3"
    by (auto simp: caught_def split: option.splits)
  have d: "timestamp d = now w" "html_file d = r2" "screenshot_file d = r3"
    using s4 rs(2) unfolding run by (simp_all add: display_results_def)
  have hr: "(save_html_raises w s1 = None) = ((\<exists>c. content w = Inr c) \<and> write_file w = Inr ())"
    using s1(1) by (auto simp: save_html_raises_def split: sum.splits)
  have sr: "(save_screenshot_raises w s2 = None) = (screenshot w = Inr ())"
    using s2(1) by (auto simp: save_screenshot_raises_def split: sum.splits)
  have w1: "\<exists>c. content w = Inr c \<and> Call (WriteFile p c) \<in> set (trace s)" if "html_file d = Some p" for p
  proof -
    from that d(2) have "save_html w s1 = (Some p, s2)" using h by simp
    from save_html_written[OF this] tr tr3 tr2 show ?thesis by blast
  qed
  have w2: "Call (Screenshot p) \<in> set (trace s)" if "screenshot_file d = Some p" for p
  proof -
    from that d(3) have "save_screenshot w s2 = (Some p, s3)" using sh by simp
    from save_screenshot_made[OF this] tr tr3 show ?thesis by blast
  qed
  from d s2(6) s3(6) hr sr w1 w2 show ?thesis
    by (simp add: zara_html_path_def zara_screenshot_path_def)
qed

theorem zara_output_files_witness:
  "fst (main world_ok) =
     Scraped \<lparr>timestamp = ''20250101_120000'', url = ''https://www.zara.com/'', data_locale = ''en-US'',
              success = True,
              html_file = Some ''data/scrapes/html/zara_homepage_20250101_120000.html'',
              screenshot_file = Some ''data/scrapes/screenshots/zara_homepage_20250101_120000.png'',
              errors = [], banners_found = 2,
              banners = Some [\<lparr>banner_text = ''SHOP NOW'', banner_href = ''/shop'', banner_index = 0\<rparr>,
                              \<lparr>banner_text = ''SHOP NOW'', banner_href = ''/shop'', banner_index = 1\<rparr>]\<rparr> \<and>
   Call (WriteFile ''data/scrapes/html/zara_homepage_20250101_120000.html'' ''<html></html>'') \<in> set (trace (snd (main world_ok))) \<and>
   Call (Screenshot ''data/scrapes/screenshots/zara_homepage_20250101_120000.png'') \<in> set (trace (snd (main world_ok)))"
proof -
  let ?d = "\<lparr>timestamp = ''20250101_120000'', url = ''https://www.zara.com/'', data_locale = ''en-US'',
              success = True,
              html_file = Some ''data/scrapes/html/zara_homepage_20250101_120000.html'',
              screenshot_file = Some ''data/scrapes/screenshots/zara_homepage_20250101_120000.png'',
              errors = [], banners_found = 2,
              banners = Some [\<lparr>banner_text = ''SHOP NOW'', banner_href = ''/shop'', banner_index = 0\<rparr>,
                              \<lparr>banner_text = ''SHOP NOW'', banner_href = ''/shop'', banner_index = 1\<rparr>]\<rparr>"
  have f: "fst (main world_ok) = Scraped ?d" by code_simp
  then have m: "main world_ok = (Scraped ?d, snd (main world_ok))" by (simp add: prod_eq_iff)
  have c: "content world_ok = Inr ''<html></html>''" by (simp add: world_ok_def)
  from zara_output_files[OF m] f c show ?thesis by simp
qed

text \<open>
  Claim C6 as stated fails: in the browser \<open>world_saves_fail\<close> the run is successful by
  its own flag, and neither file is written nor recorded.
\<close>

theorem zara_output_files_counterexample:
  "fst (main world_saves_fail) =
     Scraped \<lparr>timestamp = ''20250101_120000'', url = ''https://www.zara.com/'', data_locale = ''en-US'',
              success = True, html_file = None, screenshot_file = None,
              errors = [''Failed to save HTML: Target closed'', ''Failed to save screenshot: Target closed'',
                        ''Failed to extract banners: Timeout 30000ms exceeded''],
              banners_found = 0, banners = Some []\<rparr> \<and>
   steps_of (trace (snd (main world_saves_fail))) = [Start, Navigate, Popup, SaveHtml, SaveShot, Extract, Report]"
  by code_simp




section \<open>DemoScraper and TestScraper as instances of the pipeline\<close>

lemma demo_navigate_pipeline: "demo_navigate_to_page w s = pipeline_navigate demo_config w s"
  by (auto simp: demo_navigate_to_page_def pipeline_navigate_def demo_navigate_except_def pipeline_fail_def
      demo_config_def DEMO_URL_def split: prod.splits sum.splits bool.splits)

lemma demo_save_html_pipeline: "demo_save_html w s = pipeline_save_html demo_config w s"
  by (auto simp: demo_save_html_def pipeline_save_html_def save_html_except_def pipeline_fail_def
      demo_config_def demo_HTML_DIR_def demo_OUTPUT_DIR_def Let_def split: prod.splits sum.splits bool.splits)

lemma demo_save_screenshot_pipeline: "demo_save_screenshot w s = pipeline_save_screenshot demo_config w s"
  by (auto simp: demo_save_screenshot_def pipeline_save_screenshot_def save_screenshot_except_def pipeline_fail_def
      demo_config_def demo_SCREENSHOTS_DIR_def demo_OUTPUT_DIR_def Let_def split: prod.splits sum.splits bool.splits)

lemma demo_extract_pipeline: "demo_extract_data w s = pipeline_extract w s"
  by (auto simp: demo_extract_data_def pipeline_extract_def extract_data_except_def pipeline_fail_def Let_def split: prod.splits sum.splits bool.splits)

lemma demo_run_pipeline: "demo_run_scrape w s = pipeline_run demo_config w s"
  by (auto simp: demo_run_scrape_def pipeline_run_def demo_navigate_pipeline demo_save_html_pipeline
      demo_save_screenshot_pipeline demo_extract_pipeline display_results_def Let_def case_prod_beta split: prod.splits sum.splits bool.splits)

lemma demo_main_pipeline: "demo_main w = pipeline_main demo_config w"
  by (auto simp: demo_main_def pipeline_main_def demo_run_pipeline demo_init_def pipeline_init_def
      demo_config_def DEMO_URL_def HEADLESS_def LOCALE_def split: prod.splits sum.splits bool.splits)

lemma demo_block_pipeline: "demo_scraper_main_block w = pipeline_exit demo_config w"
  by (auto simp: demo_scraper_main_block_def pipeline_exit_def demo_main_pipeline split: prod.splits sum.splits bool.splits)

lemma test_navigate_pipeline: "test_navigate_to_page w s = pipeline_navigate test_config w s"
  by (auto simp: test_navigate_to_page_def pipeline_navigate_def test_navigate_except_def pipeline_fail_def
      test_config_def TEST_URL_def split: prod.splits sum.splits bool.splits)

lemma test_save_html_pipeline: "test_save_html w s = pipeline_save_html test_config w s"
  by (auto simp: test_save_html_def pipeline_save_html_def save_html_except_def pipeline_fail_def
      test_config_def test_HTML_DIR_def test_OUTPUT_DIR_def Let_def split: prod.splits sum.splits bool.splits)

lemma test_save_screenshot_pipeline: "test_save_screenshot w s = pipeline_save_screenshot test_config w s"
  by (auto simp: test_save_screenshot_def pipeline_save_screenshot_def save_screenshot_except_def pipeline_fail_def
      test_config_def test_SCREENSHOTS_DIR_def test_OUTPUT_DIR_def Let_def split: prod.splits sum.splits bool.splits)

lemma test_extract_pipeline: "test_extract_data w s = pipeline_extract w s"
  by (auto simp: test_extract_data_def pipeline_extract_def extract_data_except_def pipeline_fail_def Let_def split: prod.splits sum.splits bool.splits)

lemma test_run_pipeline: "test_run_scrape w s = pipeline_run test_config w s"
  by (auto simp: test_run_scrape_def pipeline_run_def test_navigate_pipeline test_save_html_pipeline
      test_save_screenshot_pipeline test_extract_pipeline display_results_def Let_def case_prod_beta split: prod.splits sum.splits bool.splits)

lemma test_main_pipeline: "test_main w = pipeline_main test_config w"
  by (auto simp: test_main_def pipeline_main_def test_run_pipeline test_init_def pipeline_init_def
      test_config_def TEST_URL_def HEADLESS_def LOCALE_def split: prod.splits sum.splits bool.splits)

lemma test_block_pipeline: "test_scraper_main_block w = pipeline_exit test_config w"
  by (auto simp: test_scraper_main_block_def pipeline_exit_def test_main_pipeline split: prod.splits sum.splits bool.splits)



lemma pipeline_navigate_emits:
  assumes "pipeline_navigate cfg w s = (b, s')"
  shows "emits s s' {Navigate} [Navigate]"
proof -
  have "trace s' = trace s @ [Enter Navigate] \<or> trace s' = trace s @ [Enter Navigate, Call (Goto (cfg_url cfg))] \<or>
        trace s' = trace s @ [Enter Navigate, Call (Goto (cfg_url cfg)), Call (WaitForLoadState ''domcontentloaded'')] \<or>
        trace s' = trace s @ [Enter Navigate, Call (Goto (cfg_url cfg)), Call (WaitForLoadState ''domcontentloaded''), Call Title]"
    using assms
    by (auto simp: pipeline_navigate_def pipeline_fail_def page_call_def split: prod.splits sum.splits if_splits)
  then show ?thesis
  proof (elim disjE)
    assume "trace s' = trace s @ [Enter Navigate]"
    then show ?thesis by (rule emitsI) simp_all
  next
    assume "trace s' = trace s @ [Enter Navigate, Call (Goto (cfg_url cfg))]"
    then show ?thesis by (rule emitsI) simp_all
  next
    assume "trace s' = trace s @ [Enter Navigate, Call (Goto (cfg_url cfg)), Call (WaitForLoadState ''domcontentloaded'')]"
    then show ?thesis by (rule emitsI) simp_all
  next
    assume "trace s' = trace s @ [Enter Navigate, Call (Goto (cfg_url cfg)), Call (WaitForLoadState ''domcontentloaded''), Call Title]"
    then show ?thesis by (rule emitsI) simp_all
  qed
qed


lemma pipeline_save_html_emits:
  assumes "pipeline_save_html cfg w s = (r, s')"
  shows "emits s s' {SaveHtml} [SaveHtml]"
proof -
  obtain pre where "trace s' = trace s @ pre"
    "pre = [Enter SaveHtml] \<or> pre = [Enter SaveHtml, Call Content] \<or>
     (\<exists>p c. pre = [Enter SaveHtml, Call Content, Call (WriteFile p c)])"
    using assms
    by (auto simp: pipeline_save_html_def pipeline_fail_def page_call_def Let_def split: prod.splits sum.splits if_splits)
  then show ?thesis by (intro emitsI[of _ _ pre]) auto
qed


lemma pipeline_save_screenshot_emits:
  assumes "pipeline_save_screenshot cfg w s = (r, s')"
  shows "emits s s' {SaveShot} [SaveShot]"
proof -
  obtain pre where "trace s' = trace s @ pre"
    "pre = [Enter SaveShot] \<or> (\<exists>p. pre = [Enter SaveShot, Call (Screenshot p)])"
    using assms
    by (auto simp: pipeline_save_screenshot_def pipeline_fail_def page_call_def Let_def split: prod.splits sum.splits if_splits)
  then show ?thesis by (intro emitsI[of _ _ pre]) auto
qed


lemma heading_loop_observes: "heading_loop w is hs s = (hs', s') \<Longrightarrow> observes s s'"
proof (induction "is" arbitrary: hs s)
  case Nil
  then show ?case by (simp add: observes_def)
next
  case (Cons i "is")
  then show ?case
    by (fastforce simp: observes_def heading_failed_def Let_def split: if_splits sum.splits)
qed

lemma heading_loop_snd [simp]:
  "page (snd (heading_loop w is hs s)) = page s"
  "scrape_data (snd (heading_loop w is hs s)) = scrape_data s"
  "self_timestamp (snd (heading_loop w is hs s)) = self_timestamp s"
  "browser (snd (heading_loop w is hs s)) = browser s"
  "self_context (snd (heading_loop w is hs s)) = self_context s"
  using heading_loop_observes[of w "is" hs s "fst (heading_loop w is hs s)" "snd (heading_loop w is hs s)"]
  by (simp_all add: observes_def)

lemma pipeline_extract_trace:
  assumes "pipeline_extract w s = (hs, s')"
  shows "(trace s' = trace s @ [Enter Extract] \<or> trace s' = trace s @ [Enter Extract, Call (WaitForLoadState ''networkidle'')] \<or>
         trace s' = trace s @ [Enter Extract, Call (WaitForLoadState ''networkidle''), Call (QuerySelectorAll heading_selector)])
        \<or> (case query_selector_all w of Inl e \<Rightarrow> False
            | Inr n \<Rightarrow> trace s' = trace (snd (heading_loop w [0 ..< n] []
                   (emit (Call (QuerySelectorAll heading_selector)) (emit (Call (WaitForLoadState ''networkidle'')) (emit (Enter Extract) s))))))"
  using assms
  apply (simp add: pipeline_extract_def pipeline_fail_def page_call_def Let_def
        split: sum.splits if_splits prod.splits)
  apply auto
  done

lemma pipeline_extract_emits:
  assumes "pipeline_extract w s = (hs, s')"
  shows "emits s s' {Extract} [Extract]"
proof -
  let ?s2 = "emit (Call (QuerySelectorAll heading_selector)) (emit (Call (WaitForLoadState ''networkidle'')) (emit (Enter Extract) s))"
  from pipeline_extract_trace[OF assms]
  consider (a) "trace s' = trace s @ [Enter Extract]"
    | (b) "trace s' = trace s @ [Enter Extract, Call (WaitForLoadState ''networkidle'')]"
    | (c) "trace s' = trace s @ [Enter Extract, Call (WaitForLoadState ''networkidle''), Call (QuerySelectorAll heading_selector)]"
    | (loop) n where "trace s' = trace (snd (heading_loop w [0 ..< n] [] ?s2))"
    by (auto split: sum.splits)
  then show ?thesis
  proof cases
    case a
    then show ?thesis by (rule emitsI) simp_all
  next
    case b
    then show ?thesis by (rule emitsI) simp_all
  next
    case c
    then show ?thesis by (rule emitsI) simp_all
  next
    case loop
    let ?r = "heading_loop w [0 ..< n] [] ?s2"
    have "?r = (fst ?r, snd ?r)" by simp
    from heading_loop_events[OF _ this]
    obtain evs where evs: "trace (snd ?r) = trace ?s2 @ evs" "distinct evs"
      "set evs \<subseteq> (\<lambda>i. Call (HeadingText i)) ` set [0 ..< n] \<union> (\<lambda>i. Call (HeadingTag i)) ` set [0 ..< n]"
      by auto
    let ?all = "[Enter Extract, Call (WaitForLoadState ''networkidle''), Call (QuerySelectorAll heading_selector)] @ evs"
    have calls: "\<forall>e\<in>set evs. \<exists>c. e = Call c" using evs(3) by auto
    have own: "owner ` set evs \<subseteq> {Extract}" using evs(3) by auto
    have notin: "Enter Extract \<notin> set evs" "Call (WaitForLoadState ''networkidle'') \<notin> set evs"
      "Call (QuerySelectorAll heading_selector) \<notin> set evs"
      using evs(3) by auto
    have "trace s' = trace s @ ?all" using loop evs(1) by simp
    moreover have "distinct ?all" using evs(2) notin by simp
    moreover have "owner ` set ?all \<subseteq> {Extract}" using own by simp
    moreover have "steps_of ?all = [Extract]" using steps_of_calls[OF calls] by simp
    ultimately show ?thesis by (rule emitsI)
  qed
qed





section \<open>Whole runs\<close>

lemma emits_from_empty:
  "emits s s' A sts \<Longrightarrow> trace s = [] \<Longrightarrow>
     distinct (trace s') \<and> owner ` set (trace s') \<subseteq> A \<and> steps_of (trace s') = sts"
  unfolding emits_def by auto

lemma emits_sleep:
  assumes "emits s s' A x" and "Popup \<notin> A" and "Call (Sleep n) \<in> set (trace s')"
  shows "Call (Sleep n) \<in> set (trace s)"
proof -
  from assms(1) obtain evs where evs: "trace s' = trace s @ evs" "owner ` set evs \<subseteq> A"
    unfolding emits_def by blast
  have "owner (Call (Sleep n)) \<notin> A" using assms(2) by simp
  with evs(2) have "Call (Sleep n) \<notin> set evs" by (rule not_in_by_owner)
  with assms(3) evs(1) show ?thesis by simp
qed

lemma handle_cookie_popup_sleep:
  assumes "handle_cookie_popup w s = (b, s')" and "Call (Sleep n) \<in> set (trace s')"
  shows "Call (Sleep n) \<in> set (trace s) \<or> n = 2"
proof -
  let ?s0 = "emit (Call (Sleep 2)) (emit (Enter Popup) s)"
  obtain b1 s1 where cl: "cookie_loop w cookie_selectors ?s0 = (b1, s1)"
    by (cases "cookie_loop w cookie_selectors ?s0") blast
  from cookie_loop_events[OF distinct_cookie_selectors cl]
  obtain evs where evs: "trace s1 = trace ?s0 @ evs"
    "set evs \<subseteq> (\<lambda>x. Call (LocatorCount x)) ` set cookie_selectors \<union> (\<lambda>x. Call (LocatorClick x)) ` set cookie_selectors"
    by blast
  have post: "trace s' = trace s1 \<or> trace s' = trace s1 @ [Call RoleCount] \<or> trace s' = trace s1 @ [Call RoleCount, Call RoleClick]"
    using assms(1) cl
    by (auto simp: handle_cookie_popup_def page_call_def Let_def split: bool.splits sum.splits if_splits)
  have "Call (Sleep n) \<notin> set evs" using evs(2) by auto
  with assms(2) post evs(1) show ?thesis by auto
qed

lemma navigate_sleep:
  assumes "navigate_to_homepage w s = (b, s')" and "Call (Sleep n) \<in> set (trace s')"
  shows "Call (Sleep n) \<in> set (trace s) \<or> n = 2"
proof -
  let ?s2 = "emit (Call (WaitForLoadState ''domcontentloaded'')) (emit (Call (Goto ZARA_HOME_URL)) (emit (Enter Navigate) s))"
  let ?s3 = "snd (handle_cookie_popup w ?s2)"
  from navigate_trace[OF assms(1)]
  consider (early) "trace s' = trace s @ [Enter Navigate] \<or> trace s' = trace s @ [Enter Navigate, Call (Goto ZARA_HOME_URL)] \<or>
          trace s' = trace s @ [Enter Navigate, Call (Goto ZARA_HOME_URL), Call (WaitForLoadState ''domcontentloaded'')]"
    | (popup) "trace s' = trace ?s3 @ [Call Title]"
    by auto
  then show ?thesis
  proof cases
    case early
    with assms(2) show ?thesis by auto
  next
    case popup
    with assms(2) have in3: "Call (Sleep n) \<in> set (trace ?s3)" by simp
    have "handle_cookie_popup w ?s2 = (fst (handle_cookie_popup w ?s2), ?s3)" by simp
    from handle_cookie_popup_sleep[OF this in3] show ?thesis by auto
  qed
qed

lemma run_scrape_sleep:
  assumes "Call (Sleep n) \<in> set (trace (run_scrape w s))"
  shows "Call (Sleep n) \<in> set (trace s) \<or> n = 2"
proof -
  obtain b s1 where nav: "navigate_to_homepage w s = (b, s1)"
    by (cases "navigate_to_homepage w s") blast
  show ?thesis
  proof (cases b)
    case False
    with nav have "trace (run_scrape w s) = trace s1" by (simp add: run_scrape_def)
    with assms navigate_sleep[OF nav] show ?thesis by simp
  next
    case True
    obtain r2 s2 where h: "save_html w s1 = (r2, s2)" by (cases "save_html w s1") blast
    obtain r3 s3 where sh: "save_screenshot w s2 = (r3, s3)" by (cases "save_screenshot w s2") blast
    obtain bs s4 where ex: "extract_hero_banners w s3 = (bs, s4)" by (cases "extract_hero_banners w s3") blast
    have rs: "trace (run_scrape w s) = trace s4 @ [Enter Report]"
      using nav True h sh ex by (simp add: run_scrape_def display_results_def)
    with assms have "Call (Sleep n) \<in> set (trace s4)" by simp
    then have "Call (Sleep n) \<in> set (trace s3)" using emits_sleep[OF extract_emits[OF ex]] by simp
    then have "Call (Sleep n) \<in> set (trace s2)" using emits_sleep[OF save_screenshot_emits[OF sh]] by simp
    then have "Call (Sleep n) \<in> set (trace s1)" using emits_sleep[OF save_html_emits[OF h]] by simp
    with navigate_sleep[OF nav] show ?thesis by simp
  qed
qed

lemma run_scrape_steps:
  "\<exists>sts. emits s (run_scrape w s) (set zara_steps) sts \<and>
         (if success (scrape_data (run_scrape w s)) then sts = zara_steps
          else sts = [Navigate] \<or> sts = [Navigate, Popup])"
proof -
  from run_scrape_emits[of s w] obtain sts where sts: "emits s (run_scrape w s) (set zara_steps) sts"
    "success (scrape_data (run_scrape w s)) \<longrightarrow> sts = zara_steps"
    by blast
  from sts(1) have "steps_of (trace (run_scrape w s)) = steps_of (trace s) @ sts"
    unfolding emits_def by auto
  then have p: "performed w s = sts" by (simp add: performed_def)
  show ?thesis
  proof (cases "success (scrape_data (run_scrape w s))")
    case True
    with sts show ?thesis by auto
  next
    case False
    then have "\<not> fst (navigate_to_homepage w s)" by (simp add: run_scrape_success)
    from run_scrape_failed_steps[OF this] p sts(1) False show ?thesis by auto
  qed
qed

lemma zara_init_trace: "trace (zara_init w hl loc) = []"
  by (simp add: zara_init_def)

lemma main_steps:
  "\<exists>sts. emits (zara_init w HEADLESS LOCALE) (snd (main w)) (insert Start (set zara_steps)) sts \<and>
         (if get_success (fst (main w)) then sts = Start # zara_steps
          else sts = [Start] \<or> sts = [Start, Navigate] \<or> sts = [Start, Navigate, Popup])"
proof -
  let ?i = "zara_init w HEADLESS LOCALE"
  obtain r s0 where st: "start_browser w ?i = (r, s0)" by (cases "start_browser w ?i") blast
  note e0 = start_browser_emits[OF st]
  show ?thesis
  proof (cases r)
    case (Inl e)
    with st have m: "main w = (MainError e, s0)" by (simp add: main_def)
    have "emits ?i s0 (insert Start (set zara_steps)) [Start]"
      using e0 by (rule emits_mono) simp
    with m show ?thesis by (auto simp: get_success_def)
  next
    case (Inr u)
    with st have m: "main w = (Scraped (scrape_data (run_scrape w s0)), run_scrape w s0)"
      by (simp add: main_def Let_def)
    from run_scrape_steps[of s0 w] obtain sts where sts: "emits s0 (run_scrape w s0) (set zara_steps) sts"
      "if success (scrape_data (run_scrape w s0)) then sts = zara_steps
          else sts = [Navigate] \<or> sts = [Navigate, Popup]" by blast
    have "{Start} \<inter> set zara_steps = {}" by (simp add: zara_steps_def)
    from emits_trans[OF e0 sts(1) this] have "emits ?i (run_scrape w s0) (insert Start (set zara_steps)) (Start # sts)"
      by simp
    with m sts(2) show ?thesis by (auto simp: get_success_def split: if_splits)
  qed
qed

lemma main_sleep:
  assumes "Call (Sleep n) \<in> set (trace (snd (main w)))"
  shows "n = 2"
proof -
  let ?i = "zara_init w HEADLESS LOCALE"
  obtain r s0 where st: "start_browser w ?i = (r, s0)" by (cases "start_browser w ?i") blast
  have no0: "Call (Sleep n) \<notin> set (trace s0)"
    using emits_sleep[OF start_browser_emits[OF st], of n] by (auto simp: zara_init_trace)
  show ?thesis
  proof (cases r)
    case (Inl e)
    with st have "snd (main w) = s0" by (simp add: main_def)
    with assms no0 show ?thesis by simp
  next
    case (Inr u)
    with st have "snd (main w) = run_scrape w s0" by (simp add: main_def Let_def)
    with assms run_scrape_sleep[of n w s0] no0 show ?thesis by simp
  qed
qed

lemma pipeline_run_success:
  "success (scrape_data (pipeline_run cfg w s)) = fst (pipeline_navigate cfg w s)"
  by (auto simp: pipeline_run_def Let_def case_prod_beta split: prod.splits bool.splits)

lemma pipeline_run_steps:
  "emits s (pipeline_run cfg w s) {Navigate, SaveHtml, SaveShot, Extract, Report}
     (if success (scrape_data (pipeline_run cfg w s)) then [Navigate, SaveHtml, SaveShot, Extract, Report]
      else [Navigate])"
proof -
  obtain b s1 where nav: "pipeline_navigate cfg w s = (b, s1)"
    by (cases "pipeline_navigate cfg w s") blast
  note e1 = pipeline_navigate_emits[OF nav]
  show ?thesis
  proof (cases b)
    case False
    with nav have rs: "trace (pipeline_run cfg w s) = trace s1" "\<not> success (scrape_data (pipeline_run cfg w s))"
      by (simp_all add: pipeline_run_def)
    have "emits s s1 {Navigate, SaveHtml, SaveShot, Extract, Report} [Navigate]"
      using e1 by (rule emits_mono) simp
    then have "emits s (pipeline_run cfg w s) {Navigate, SaveHtml, SaveShot, Extract, Report} [Navigate]"
      using rs(1) by (rule emits_same_trace)
    with rs(2) show ?thesis by simp
  next
    case True
    obtain r2 s2 where h: "pipeline_save_html cfg w s1 = (r2, s2)" by (cases "pipeline_save_html cfg w s1") blast
    obtain r3 s3 where sh: "pipeline_save_screenshot cfg w s2 = (r3, s3)" by (cases "pipeline_save_screenshot cfg w s2") blast
    obtain hs s4 where ex: "pipeline_extract w s3 = (hs, s4)" by (cases "pipeline_extract w s3") blast
    let ?s5 = "s4\<lparr>scrape_data := (scrape_data s4)\<lparr>success := True, extracted_data := Some hs\<rparr>\<rparr>"
    have rs: "pipeline_run cfg w s = emit (Enter Report) ?s5"
      using nav True h sh ex by (simp add: pipeline_run_def Let_def)
    have e12: "emits s s2 {Navigate, SaveHtml} [Navigate, SaveHtml]"
      using emits_trans[OF e1 pipeline_save_html_emits[OF h]] by (simp add: insert_commute)
    have e13: "emits s s3 {Navigate, SaveHtml, SaveShot} [Navigate, SaveHtml, SaveShot]"
      using emits_trans[OF e12 pipeline_save_screenshot_emits[OF sh]] by (simp add: insert_commute)
    have e14: "emits s s4 {Navigate, SaveHtml, SaveShot, Extract} [Navigate, SaveHtml, SaveShot, Extract]"
      using emits_trans[OF e13 pipeline_extract_emits[OF ex]] by (simp add: insert_commute)
    have e14': "emits s ?s5 {Navigate, SaveHtml, SaveShot, Extract} [Navigate, SaveHtml, SaveShot, Extract]"
      using e14 by (rule emits_same_trace) simp
    have e5: "emits ?s5 (emit (Enter Report) ?s5) {Report} [Report]"
      by (rule emitsI[of _ _ "[Enter Report]"]) simp_all
    have "emits s (pipeline_run cfg w s) {Navigate, SaveHtml, SaveShot, Extract, Report} [Navigate, SaveHtml, SaveShot, Extract, Report]"
      using emits_trans[OF e14' e5] rs by (simp add: insert_commute)
    moreover have "success (scrape_data (pipeline_run cfg w s))" unfolding rs by simp
    ultimately show ?thesis by simp
  qed
qed

lemma pipeline_init_trace: "trace (pipeline_init cfg w hl loc) = []"
  by (simp add: pipeline_init_def)

lemma pipeline_main_steps:
  "emits (pipeline_init cfg w True ''en-US'') (snd (pipeline_main cfg w))
     {Start, Navigate, SaveHtml, SaveShot, Extract, Report, Cleanup}
     (if get_success (fst (pipeline_main cfg w)) then [Start, Navigate, SaveHtml, SaveShot, Extract, Report, Cleanup]
      else if start_raises w = None then [Start, Navigate, Cleanup] else [Start])"
proof -
  let ?i = "pipeline_init cfg w True ''en-US''"
  let ?A = "{Start, Navigate, SaveHtml, SaveShot, Extract, Report, Cleanup}"
  obtain r s0 where st: "start_browser w ?i = (r, s0)" by (cases "start_browser w ?i") blast
  note e0 = start_browser_emits[OF st] and ch = start_browser_char[OF st]
  show ?thesis
  proof (cases r)
    case (Inl e)
    with st have m: "pipeline_main cfg w = (MainError e, s0)" by (simp add: pipeline_main_def)
    from Inl ch have sr: "start_raises w \<noteq> None" by (auto split: option.splits)
    have "emits ?i s0 ?A [Start]"
      using e0 by (rule emits_mono) simp
    with m sr show ?thesis by (auto simp: get_success_def)
  next
    case (Inr u)
    let ?s1 = "pipeline_run cfg w s0"
    from Inr st have m: "pipeline_main cfg w = (Scraped (scrape_data ?s1), cleanup w ?s1)"
      by (simp add: pipeline_main_def Let_def)
    from Inr ch have sr: "start_raises w = None" by (auto split: option.splits)
    let ?sts = "if success (scrape_data ?s1) then [Navigate, SaveHtml, SaveShot, Extract, Report] else [Navigate]"
    have e1: "emits ?i ?s1 ({Start} \<union> {Navigate, SaveHtml, SaveShot, Extract, Report}) ([Start] @ ?sts)"
      using e0 pipeline_run_steps[of s0 cfg w] by (rule emits_trans) simp
    have e2: "emits ?i (cleanup w ?s1) (({Start} \<union> {Navigate, SaveHtml, SaveShot, Extract, Report}) \<union> {Cleanup}) (([Start] @ ?sts) @ [Cleanup])"
      using e1 cleanup_emits[of ?s1 w] by (rule emits_trans) simp
    have "({Start} \<union> {Navigate, SaveHtml, SaveShot, Extract, Report}) \<union> {Cleanup} = ?A" by auto
    with e2 have "emits ?i (cleanup w ?s1) ?A (([Start] @ ?sts) @ [Cleanup])" by simp
    with m sr show ?thesis by (cases "success (scrape_data ?s1)") (simp_all add: get_success_def)
  qed
qed




section \<open>The three classes compared\<close>

text \<open>
  Claim C2, as amended. DemoScraper and TestScraper are one pipeline: navigation, HTML
  save, screenshot save, extraction of the headings, the run and the main function of
  either class are the pipeline of the specification at that class's URL, output
  directory and file-name prefix; browser start, reporting and cleanup are the same text
  in both. ZaraScraper is not an instance of it.
\<close>

theorem demo_and_test_are_one_pipeline:
  "demo_navigate_to_page w s = pipeline_navigate demo_config w s \<and>
   test_navigate_to_page w s = pipeline_navigate test_config w s \<and>
   demo_save_html w s = pipeline_save_html demo_config w s \<and>
   test_save_html w s = pipeline_save_html test_config w s \<and>
   demo_save_screenshot w s = pipeline_save_screenshot demo_config w s \<and>
   test_save_screenshot w s = pipeline_save_screenshot test_config w s \<and>
   demo_extract_data w s = pipeline_extract w s \<and>
   test_extract_data w s = pipeline_extract w s \<and>
   demo_run_scrape w s = pipeline_run demo_config w s \<and>
   test_run_scrape w s = pipeline_run test_config w s \<and>
   demo_scraper_main_block w = pipeline_exit demo_config w \<and>
   test_scraper_main_block w = pipeline_exit test_config w"
  by (simp add: demo_navigate_pipeline test_navigate_pipeline demo_save_html_pipeline test_save_html_pipeline
      demo_save_screenshot_pipeline test_save_screenshot_pipeline demo_extract_pipeline test_extract_pipeline
      demo_run_pipeline test_run_pipeline demo_block_pipeline test_block_pipeline)

theorem demo_and_test_are_one_pipeline_witness:
  "fst (demo_scraper_main_block world_ok) = 0 \<and> fst (pipeline_exit demo_config world_ok) = 0 \<and>
   fst (pipeline_exit test_config world_offline) = 1 \<and> fst (test_scraper_main_block world_offline) = 1"
proof -
  have a: "fst (pipeline_exit demo_config world_ok) = 0" by code_simp
  have b: "fst (pipeline_exit test_config world_offline) = 1" by code_simp
  from demo_and_test_are_one_pipeline[of world_ok "demo_init world_ok True ''en-US''"]
    demo_and_test_are_one_pipeline[of world_offline "test_init world_offline True ''en-US''"] a b
  show ?thesis by simp
qed

text \<open>
  Claim C2 as stated fails. With every browser call succeeding, ZaraScraper enters a
  popup step the other two do not have and leaves out their cleanup; and the page that
  makes ZaraScraper fail, one whose title lacks "zara", lets the other two succeed. No
  choice of URL, selectors or file names turns one into the other.
\<close>

theorem three_classes_counterexample:
  "steps_of (trace (snd (main world_ok))) = [Start, Navigate, Popup, SaveHtml, SaveShot, Extract, Report] \<and>
   steps_of (trace (snd (demo_main world_ok))) = [Start, Navigate, SaveHtml, SaveShot, Extract, Report, Cleanup] \<and>
   steps_of (trace (snd (test_main world_ok))) = [Start, Navigate, SaveHtml, SaveShot, Extract, Report, Cleanup] \<and>
   get_success (fst (main world_denied)) = False \<and>
   get_success (fst (demo_main world_denied)) = True \<and>
   get_success (fst (test_main world_denied)) = True"
  by code_simp

section \<open>No retry, no backoff\<close>

lemma distinct_count_list: "distinct xs \<Longrightarrow> count_list xs e \<le> 1"
  by (induction xs) (auto simp: count_list_0_iff)

lemma main_trace_facts:
  "distinct (trace (snd (main w))) \<and> owner ` set (trace (snd (main w))) \<subseteq> insert Start (set zara_steps) \<and>
   (if get_success (fst (main w)) then steps_of (trace (snd (main w))) = Start # zara_steps
    else steps_of (trace (snd (main w))) = [Start] \<or> steps_of (trace (snd (main w))) = [Start, Navigate] \<or>
         steps_of (trace (snd (main w))) = [Start, Navigate, Popup])"
proof -
  from main_steps[of w] obtain sts where sts:
    "emits (zara_init w HEADLESS LOCALE) (snd (main w)) (insert Start (set zara_steps)) sts"
    "if get_success (fst (main w)) then sts = Start # zara_steps
          else sts = [Start] \<or> sts = [Start, Navigate] \<or> sts = [Start, Navigate, Popup]" by blast
  from emits_from_empty[OF sts(1) zara_init_trace] sts(2) show ?thesis by (auto split: if_splits)
qed

lemma pipeline_main_trace_facts:
  "distinct (trace (snd (pipeline_main cfg w))) \<and>
   owner ` set (trace (snd (pipeline_main cfg w))) \<subseteq> {Start, Navigate, SaveHtml, SaveShot, Extract, Report, Cleanup} \<and>
   steps_of (trace (snd (pipeline_main cfg w))) =
     (if get_success (fst (pipeline_main cfg w)) then [Start, Navigate, SaveHtml, SaveShot, Extract, Report, Cleanup]
      else if start_raises w = None then [Start, Navigate, Cleanup] else [Start])"
  using emits_from_empty[OF pipeline_main_steps[of cfg w] pipeline_init_trace] by simp

lemma zara_block_trace: "trace (snd (snd (zara_scraper_main_block w))) = trace (snd (main w))"
  by (simp add: zara_scraper_main_block_def case_prod_beta)

lemma run_scraper_trace: "trace (snd (snd (run_scraper_main_block w))) = trace (snd (main w)) @ [Enter Summary]"
  by (simp add: run_scraper_main_block_def run_test_def case_prod_beta)

lemma pipeline_exit_trace: "trace (snd (snd (pipeline_exit cfg w))) = trace (snd (pipeline_main cfg w))"
  by (simp add: pipeline_exit_def case_prod_beta)

lemma run_demo_trace: "trace (snd (snd (run_demo_main_block w))) = trace (snd (pipeline_main demo_config w)) @ [Enter Summary]"
  by (simp add: run_demo_main_block_def run_demo_def case_prod_beta demo_main_pipeline)

lemma good_trace_main:
  "distinct (trace (snd (main w))) \<and> Enter Summary \<notin> set (trace (snd (main w))) \<and>
   Call (Sleep retry_delay) \<notin> set (trace (snd (main w)))"
proof -
  from main_trace_facts[of w] have d: "distinct (trace (snd (main w)))"
    and o: "owner ` set (trace (snd (main w))) \<subseteq> insert Start (set zara_steps)" by blast+
  have "Enter Summary \<notin> set (trace (snd (main w)))"
    by (rule not_in_by_owner[OF o]) (simp add: zara_steps_def)
  moreover have "Call (Sleep retry_delay) \<notin> set (trace (snd (main w)))"
    using main_sleep[of retry_delay w] by (auto simp: retry_delay_def)
  ultimately show ?thesis using d by simp
qed

lemma good_trace_pipeline:
  "distinct (trace (snd (pipeline_main cfg w))) \<and> Enter Summary \<notin> set (trace (snd (pipeline_main cfg w))) \<and>
   Call (Sleep n) \<notin> set (trace (snd (pipeline_main cfg w)))"
proof -
  from pipeline_main_trace_facts[of cfg w] have d: "distinct (trace (snd (pipeline_main cfg w)))"
    and o: "owner ` set (trace (snd (pipeline_main cfg w))) \<subseteq> {Start, Navigate, SaveHtml, SaveShot, Extract, Report, Cleanup}"
    by blast+
  have "Enter Summary \<notin> set (trace (snd (pipeline_main cfg w)))"
    by (rule not_in_by_owner[OF o]) simp
  moreover have "Call (Sleep n) \<notin> set (trace (snd (pipeline_main cfg w)))"
    by (rule not_in_by_owner[OF o]) simp
  ultimately show ?thesis using d by simp
qed

text \<open>
  Claim C7. No operation is tried again. In every run of every entry point each event
  of the trace, a pipeline step entered or a call made to the browser or the file
  system, occurs once at most, so fewer than \<open>max_retries\<close> times; and no run sleeps for
  \<open>retry_delay\<close> seconds. Neither configuration value occurs in the definition of any
  operation, as in the source, where the scraper modules do not import config.py.
\<close>

theorem no_retry_no_backoff:
  "\<forall>tr \<in> set (entry_point_traces w).
     distinct tr \<and> distinct (steps_of tr) \<and> (\<forall>e. count_list tr e \<le> 1 \<and> count_list tr e < max_retries) \<and>
     Call (Sleep retry_delay) \<notin> set tr"
proof -
  have key: "distinct tr \<and> distinct (steps_of tr) \<and> (\<forall>e. count_list tr e \<le> 1 \<and> count_list tr e < max_retries) \<and>
     Call (Sleep retry_delay) \<notin> set tr" if d: "distinct tr" and s: "Call (Sleep retry_delay) \<notin> set tr"
     and st: "distinct (steps_of tr)" for tr
  proof -
    have "count_list tr e \<le> 1 \<and> count_list tr e < max_retries" for e
      using distinct_count_list[OF d, of e] by (simp add: max_retries_def)
    with d s st show ?thesis by blast
  qed
  have steps_distinct: "distinct tr \<Longrightarrow> distinct (steps_of tr)" for tr
  proof (induction tr rule: steps_of.induct)
    case 1
    then show ?case by simp
  next
    case (2 st es)
    have "st \<in> set (steps_of es) \<Longrightarrow> Enter st \<in> set es" for es
      by (induction es rule: steps_of.induct) auto
    with 2 show ?case by auto
  next
    case (3 c es)
    then show ?case by simp
  qed
  note m = good_trace_main[of w]
  note pd = good_trace_pipeline[of demo_config w retry_delay]
  note pt = good_trace_pipeline[of test_config w retry_delay]
  have t1: "distinct (trace (snd (main w)) @ [Enter Summary])" using m by simp
  have t2: "distinct (trace (snd (pipeline_main demo_config w)) @ [Enter Summary])" using pd by simp
  show ?thesis
    unfolding entry_point_traces_def
    using key[OF conjunct1[OF m]] key[OF t1] key[OF conjunct1[OF pd]] key[OF t2] key[OF conjunct1[OF pt]]
      m pd pt steps_distinct[OF conjunct1[OF m]] steps_distinct[OF t1] steps_distinct[OF conjunct1[OF pd]]
      steps_distinct[OF t2] steps_distinct[OF conjunct1[OF pt]]
    by (simp add: zara_block_trace run_scraper_trace run_demo_trace pipeline_exit_trace
        demo_block_pipeline test_block_pipeline)
qed

theorem no_retry_no_backoff_witness:
  "trace (snd (snd (run_scraper_main_block world_denied))) \<in> set (entry_point_traces world_denied) \<and>
   distinct (trace (snd (snd (run_scraper_main_block world_denied)))) \<and>
   Call (Sleep 2) \<in> set (trace (snd (snd (run_scraper_main_block world_denied)))) \<and>
   Call (Sleep retry_delay) \<notin> set (trace (snd (snd (run_scraper_main_block world_denied)))) \<and>
   count_list (trace (snd (snd (run_scraper_main_block world_denied)))) (Call (Goto ZARA_HOME_URL)) = 1"
proof -
  have i: "trace (snd (snd (run_scraper_main_block world_denied))) \<in> set (entry_point_traces world_denied)"
    by (simp add: entry_point_traces_def)
  have s2: "Call (Sleep 2) \<in> set (trace (snd (snd (run_scraper_main_block world_denied))))" by code_simp
  have g: "count_list (trace (snd (snd (run_scraper_main_block world_denied)))) (Call (Goto ZARA_HOME_URL)) = 1" by code_simp
  from no_retry_no_backoff[of world_denied] i s2 g show ?thesis by blast
qed




section \<open>Exit codes and summaries\<close>







section \<open>The cookie popup scan\<close>

lemma visited_Nil: "visited w [] = []"
  by (simp add: visited_def)

lemma visited_Cons:
  "visited w (x # xs) = (if clickable w x then [x] else x # visited w xs)"
  by (simp add: visited_def)

lemma visited_shape: "\<forall>x\<in>set (butlast (visited w xs)). \<not> clickable w x"
  by (induction xs) (simp_all add: visited_Cons visited_Nil)

lemma visited_found: "(\<exists>x\<in>set xs. clickable w x) \<Longrightarrow> visited w xs \<noteq> [] \<and> clickable w (last (visited w xs))"
  by (induction xs) (auto simp: visited_Cons visited_Nil)

lemma probe_no_sleep: "Call (Sleep n) \<notin> set (concat (map (probe w) xs))"
  by (induction xs) (auto simp: probe_def)


lemma visited_prefix: "prefix (visited w xs) xs"
  by (induction xs) (auto simp: visited_Cons visited_def)

lemma cookie_loop_exact:
  "page s \<Longrightarrow> cookie_loop w sels s = (b, s') \<Longrightarrow>
     trace s' = trace s @ concat (map (probe w) (visited w sels)) \<and> b = (\<exists>x\<in>set sels. clickable w x)"
proof (induction sels arbitrary: s)
  case Nil
  then show ?case by (simp add: visited_def)
next
  case (Cons x sels)
  show ?case
  proof (cases "clickable w x")
    case True
    with Cons.prems show ?thesis
      by (auto simp: visited_Cons clickable_def positive_count_def probe_def page_call_def Let_def
          split: sum.splits if_splits)
  next
    case False
    let ?s1 = "if positive_count w x then emit (Call (LocatorClick x)) (emit (Call (LocatorCount x)) s)
               else emit (Call (LocatorCount x)) s"
    from False Cons.prems obtain s1 where s1: "cookie_loop w sels s1 = (b, s')" "page s1"
      "trace s1 = trace s @ probe w x"
      by (auto simp: clickable_def positive_count_def probe_def page_call_def selector_failed_def Let_def
          split: sum.splits if_splits)
    from Cons.IH[OF s1(2) s1(1)] s1(3) False show ?thesis
      by (simp add: visited_Cons)
  qed
qed

lemma handle_cookie_popup_exact:
  assumes "page s"
  shows "trace (snd (handle_cookie_popup w s)) =
           trace s @ [Enter Popup, Call (Sleep 2)] @ concat (map (probe w) (visited w cookie_selectors)) @
           (if \<exists>x\<in>set cookie_selectors. clickable w x then [] else role_probe w) \<and>
         fst (handle_cookie_popup w s) = ((\<exists>x\<in>set cookie_selectors. clickable w x) \<or> role_clickable w)"
proof -
  let ?s0 = "emit (Call (Sleep 2)) (emit (Enter Popup) s)"
  obtain b1 s1 where cl: "cookie_loop w cookie_selectors ?s0 = (b1, s1)"
    by (cases "cookie_loop w cookie_selectors ?s0") blast
  have p0: "page ?s0" using assms by simp
  from cookie_loop_exact[OF p0 cl] have ex: "trace s1 = trace ?s0 @ concat (map (probe w) (visited w cookie_selectors))"
    "b1 = (\<exists>x\<in>set cookie_selectors. clickable w x)" by simp_all
  from cookie_loop_observes[OF cl] p0 have p1: "page s1" by (simp add: observes_def)
  show ?thesis
  proof (cases b1)
    case True
    with cl have "handle_cookie_popup w s = (True, s1)" by (simp add: handle_cookie_popup_def Let_def)
    with ex True show ?thesis by simp
  next
    case False
    with cl p1 have "trace (snd (handle_cookie_popup w s)) = trace s1 @ role_probe w \<and>
        fst (handle_cookie_popup w s) = role_clickable w"
      by (auto simp: handle_cookie_popup_def page_call_def role_probe_def role_clickable_def Let_def
          split: sum.splits if_splits)
    with ex False show ?thesis by simp
  qed
qed



lemma distinct_prefix: "distinct xs \<Longrightarrow> prefix ys xs \<Longrightarrow> distinct ys"
  by (auto simp: prefix_def)

lemma role_probe_no_sleep: "Call (Sleep n) \<notin> set (role_probe w)"
  by (simp add: role_probe_def)

lemma probe_role_no_sleep: "Call (Sleep n) \<notin> set (concat (map (probe w) xs) @ role_probe w)"
  using probe_no_sleep[of n w xs] role_probe_no_sleep[of n w] by simp

lemma visited_distinct: "distinct (visited w cookie_selectors)"
  using distinct_cookie_selectors visited_prefix by (rule distinct_prefix)

text \<open>
  Claim C4, as amended. On a started scraper \<open>handle_cookie_popup\<close> sleeps once, for two
  seconds, and then visits the ten selectors of its own list in list order. A selector
  whose count raises or is not positive is passed over; on a selector with a positive
  count it clicks the first element and returns \<open>True\<close> at once if the click returns; if
  the click raises, the scan goes on with the next selector. When no selector was clicked
  with success it makes one role-based attempt and returns \<open>True\<close> if that click returns,
  \<open>False\<close> otherwise. The selectors visited are an initial part of the list, none twice,
  and nothing after the first sleep is a sleep.
\<close>

theorem cookie_popup_scan:
  assumes "page s"
  shows "trace (snd (handle_cookie_popup w s)) =
           trace s @ [Enter Popup, Call (Sleep 2)] @ concat (map (probe w) (visited w cookie_selectors)) @
           (if \<exists>x\<in>set cookie_selectors. clickable w x then [] else role_probe w) \<and>
         fst (handle_cookie_popup w s) = ((\<exists>x\<in>set cookie_selectors. clickable w x) \<or> role_clickable w) \<and>
         prefix (visited w cookie_selectors) cookie_selectors \<and> distinct (visited w cookie_selectors) \<and>
         (\<forall>x\<in>set (butlast (visited w cookie_selectors)). \<not> clickable w x) \<and>
         ((\<exists>x\<in>set cookie_selectors. clickable w x) \<longrightarrow>
            visited w cookie_selectors \<noteq> [] \<and> clickable w (last (visited w cookie_selectors))) \<and>
         (\<forall>n. Call (Sleep n) \<notin> set (concat (map (probe w) (visited w cookie_selectors)) @ role_probe w))"
  using handle_cookie_popup_exact[OF assms, of w] visited_prefix[of w cookie_selectors]
    visited_distinct[of w] visited_shape[of w cookie_selectors] visited_found[of cookie_selectors w]
    probe_role_no_sleep[of _ w "visited w cookie_selectors"]
  by simp

theorem cookie_popup_scan_witness:
  "page started \<and> fst (handle_cookie_popup world_stuck_button started) \<and>
   visited world_stuck_button cookie_selectors = [cookie_selectors ! 0, cookie_selectors ! 1] \<and>
   clickable world_stuck_button (cookie_selectors ! 1) \<and>
   trace (snd (handle_cookie_popup world_stuck_button started)) =
     [Enter Popup, Call (Sleep 2),
      Call (LocatorCount (cookie_selectors ! 0)), Call (LocatorClick (cookie_selectors ! 0)),
      Call (LocatorCount (cookie_selectors ! 1)), Call (LocatorClick (cookie_selectors ! 1))]"
proof -
  have p: "page started" by code_simp
  have c: "cookie_selectors ! 1 \<in> set cookie_selectors" "clickable world_stuck_button (cookie_selectors ! 1)" by code_simp+
  have v: "visited world_stuck_button cookie_selectors = [cookie_selectors ! 0, cookie_selectors ! 1]" by code_simp
  have pr: "probe world_stuck_button (cookie_selectors ! 0) = [Call (LocatorCount (cookie_selectors ! 0)), Call (LocatorClick (cookie_selectors ! 0))]"
    "probe world_stuck_button (cookie_selectors ! 1) = [Call (LocatorCount (cookie_selectors ! 1)), Call (LocatorClick (cookie_selectors ! 1))]"
    by code_simp+
  have t: "trace started = []" by code_simp
  have ex: "\<exists>x\<in>set cookie_selectors. clickable world_stuck_button x" using c by blast
  from cookie_popup_scan[OF p, of world_stuck_button] ex
  have "trace (snd (handle_cookie_popup world_stuck_button started)) =
           trace started @ [Enter Popup, Call (Sleep 2)] @ concat (map (probe world_stuck_button) (visited world_stuck_button cookie_selectors))"
    and "fst (handle_cookie_popup world_stuck_button started)"
    by simp_all
  with p c v pr t show ?thesis by simp
qed

text \<open>
  Claim C4 as stated fails when a click raises. In \<open>world_stuck_button\<close> the first
  selector has a positive count, its click times out, and the method does not return
  there: it goes on to probe and click the second selector.
\<close>

theorem cookie_popup_scan_counterexample:
  "positive_count world_stuck_button (cookie_selectors ! 0) \<and>
   fst (handle_cookie_popup world_stuck_button started) = True \<and>
   trace (snd (handle_cookie_popup world_stuck_button started)) =
     [Enter Popup, Call (Sleep 2),
      Call (LocatorCount (cookie_selectors ! 0)), Call (LocatorClick (cookie_selectors ! 0)),
      Call (LocatorCount (cookie_selectors ! 1)), Call (LocatorClick (cookie_selectors ! 1))]"
  by code_simp





section \<open>Exception handling\<close>









end
